theory Spec2Isabelle
  imports Main "HOL-Library.Word" "HOL-Library.List_Lexorder" "HOL-Library.Char_ord"
begin

section \<open>JavaScript string and array primitives used by HTTPFileSystem\<close>

text \<open>
  JavaScript strings are modelled as \<open>string\<close> (lists of 8-bit characters), arrays as
  lists. Index-returning primitives return an \<open>int\<close>, with \<open>-1\<close> for "not found", as
  the source tests them with \<open>< 0\<close>, \<open><= 0\<close> and \<open>> -1\<close>.
\<close>

definition startsWith :: "'a list \<Rightarrow> 'a list \<Rightarrow> bool" where
  "startsWith s p = (take (length p) s = p)"

definition endsWith :: "'a list \<Rightarrow> 'a list \<Rightarrow> bool" where
  "endsWith s p = (length p \<le> length s \<and> drop (length s - length p) s = p)"

text \<open>\<open>String.prototype.indexOf\<close>: index of the first occurrence of \<open>p\<close>, or \<open>-1\<close>.\<close>

fun str_indexOf :: "string \<Rightarrow> string \<Rightarrow> int" where
  "str_indexOf [] p = (if p = [] then 0 else -1)"
| "str_indexOf (c # cs) p =
     (if startsWith (c # cs) p then 0
      else (let r = str_indexOf cs p in if r < 0 then -1 else r + 1))"

text \<open>\<open>String.prototype.lastIndexOf\<close>: index of the last occurrence of \<open>p\<close>, or \<open>-1\<close>.\<close>

fun str_lastIndexOf :: "string \<Rightarrow> string \<Rightarrow> int" where
  "str_lastIndexOf [] p = (if p = [] then 0 else -1)"
| "str_lastIndexOf (c # cs) p =
     (let r = str_lastIndexOf cs p in
      if 0 \<le> r then r + 1 else if startsWith (c # cs) p then 0 else -1)"

definition includes_str :: "string \<Rightarrow> string \<Rightarrow> bool" where
  "includes_str s p = (0 \<le> str_indexOf s p)"

text \<open>\<open>Array.prototype.indexOf\<close>: index of the first element equal to \<open>x\<close>, or \<open>-1\<close>.\<close>

fun arr_indexOf :: "'a list \<Rightarrow> 'a \<Rightarrow> int" where
  "arr_indexOf [] x = -1"
| "arr_indexOf (y # ys) x =
     (if y = x then 0 else (let r = arr_indexOf ys x in if r < 0 then -1 else r + 1))"

text \<open>
  \<open>Array.prototype.filter\<close> with the two-argument callback \<open>(element, index)\<close>;
  \<open>filter_from k\<close> numbers the elements from \<open>k\<close>.
\<close>

fun filter_from :: "int \<Rightarrow> ('a \<Rightarrow> int \<Rightarrow> bool) \<Rightarrow> 'a list \<Rightarrow> 'a list" where
  "filter_from k P [] = []"
| "filter_from k P (x # xs) = (if P x k then x # filter_from (k + 1) P xs else filter_from (k + 1) P xs)"

definition filter_idx :: "('a \<Rightarrow> int \<Rightarrow> bool) \<Rightarrow> 'a list \<Rightarrow> 'a list" where
  "filter_idx P xs = filter_from 0 P xs"

text \<open>
  \<open>String.prototype.replaceAll\<close> with a string pattern: occurrences are replaced from
  left to right without overlap, the scan resuming after each replaced occurrence.
\<close>

fun replaceAll :: "string \<Rightarrow> string \<Rightarrow> string \<Rightarrow> string" where
  "replaceAll [] pat rep = (if pat = [] then rep else [])"
| "replaceAll (c # cs) pat rep =
     (if pat = [] then rep @ c # replaceAll cs pat rep
      else if startsWith (c # cs) pat then rep @ replaceAll (drop (length pat) (c # cs)) pat rep
      else c # replaceAll cs pat rep)"

text \<open>\<open>String.prototype.replace\<close> with a string pattern: the first occurrence only.\<close>

fun replaceFirst :: "string \<Rightarrow> string \<Rightarrow> string \<Rightarrow> string" where
  "replaceFirst [] pat rep = (if pat = [] then rep else [])"
| "replaceFirst (c # cs) pat rep =
     (if startsWith (c # cs) pat then rep @ drop (length pat) (c # cs)
      else c # replaceFirst cs pat rep)"

text \<open>\<open>String.prototype.split\<close> with a string separator.\<close>

fun split_from :: "string \<Rightarrow> string \<Rightarrow> string \<Rightarrow> string list" where
  "split_from [] sep cur = [rev cur]"
| "split_from (c # cs) sep cur =
     (if sep \<noteq> [] \<and> startsWith (c # cs) sep
      then rev cur # split_from (drop (length sep) (c # cs)) sep []
      else split_from cs sep (c # cur))"

definition split :: "string \<Rightarrow> string \<Rightarrow> string list" where
  "split s sep = (if sep = [] then map (\<lambda>c. [c]) s else split_from s sep [])"

text \<open>\<open>filter(p => !!p)\<close>: drop the empty strings.\<close>

definition nonblank :: "string list \<Rightarrow> string list" where
  "nonblank xs = filter (\<lambda>p. p \<noteq> []) xs"

section \<open>Local-handle directory walk: removal of \<open>..\<close> segments\<close>

text \<open>
  \<^verbatim>\<open>
  function eatDots(parts: string[]): string[] {
    const dotdot = parts.indexOf('..');
    if (dotdot <= 0) return parts;
    const spliced = parts.filter((part: string, i) => i !== dotdot - 1 && i !== dotdot);
    return eatDots(spliced);
  }
  \<close>
\<close>

function eatDots :: "string list \<Rightarrow> string list" where
  "eatDots parts =
     (let dotdot = arr_indexOf parts ''..'' in
      if dotdot \<le> 0 then parts
      else eatDots (filter_idx (\<lambda>part i. i \<noteq> dotdot - 1 \<and> i \<noteq> dotdot) parts))"
  by pat_completeness auto
termination
proof (relation "measure length")
  show "wf (measure length)" by simp
next
  fix parts :: "string list" and x :: int
  assume x: "x = arr_indexOf parts ''..''" and pos: "\<not> x \<le> 0"
  have range: "arr_indexOf xs y < int (length xs)" for xs :: "string list" and y
    by (induction xs) (auto simp: Let_def)
  have shorter: "length (filter_from k P xs) \<le> length xs"
    for k P and xs :: "string list"
    by (induction xs arbitrary: k) (auto simp: le_SucI)
  have drops: "k \<le> d \<Longrightarrow> d < k + int (length xs) \<Longrightarrow>
      length (filter_from k (\<lambda>part i. i \<noteq> d - 1 \<and> i \<noteq> d) xs) < length xs"
    for k d and xs :: "string list"
  proof (induction xs arbitrary: k)
    case Nil
    then show ?case by simp
  next
    case (Cons a xs)
    show ?case
    proof (cases "k = d")
      case True
      then show ?thesis
        using shorter [of "k + 1" "\<lambda>part i. i \<noteq> d - 1 \<and> i \<noteq> d" xs]
        by (simp add: less_Suc_eq_le)
    next
      case False
      with Cons.prems have "k + 1 \<le> d" "d < (k + 1) + int (length xs)" by auto
      from Cons.IH [OF this] show ?thesis by auto
    qed
  qed
  have "x < int (length parts)" unfolding x by (rule range)
  with pos have "length (filter_from 0 (\<lambda>part i. i \<noteq> x - 1 \<and> i \<noteq> x) parts) < length parts"
    by (intro drops) auto
  then show "(filter_idx (\<lambda>part i. i \<noteq> x - 1 \<and> i \<noteq> x) parts, parts) \<in> measure length"
    by (simp add: filter_idx_def)
qed

declare eatDots.simps [simp del]

section \<open>Values of the file-access layer\<close>

text \<open>
  A \<open>FileSystemAPIHandle\<close> of the host: a file, or a directory with its children in
  the order the host iterates them. Each handle carries its \<open>name\<close>.
\<close>

datatype handle = FileHandle string | DirHandle string "handle list"

fun handle_name :: "handle \<Rightarrow> string" where
  "handle_name (FileHandle n) = n"
| "handle_name (DirHandle n kids) = n"

fun is_file :: "handle \<Rightarrow> bool" where
  "is_file (FileHandle n) = True"
| "is_file (DirHandle n kids) = False"

record DirectoryEntry =
  files :: "string list"
  dirs :: "string list"
  handles :: "string \<rightharpoonup> handle"
  html :: "string option"

definition emptyEntry :: DirectoryEntry where
  "emptyEntry = \<lparr>files = [], dirs = [], handles = Map.empty, html = None\<rparr>"

text \<open>
  What the code throws: \<open>Error\<close> and \<open>TypeError\<close> objects with their message, a
  \<open>Response\<close> object (thrown as it is on a non-2xx status), or a bare string.
  \<open>toStr e\<close> is the source's \<open>'' + e\<close>.
\<close>

datatype thrown = JSError string | JSTypeError string | JSResponse nat | JSString string

fun toStr :: "thrown \<Rightarrow> string" where
  "toStr (JSError m) = (if m = [] then ''Error'' else ''Error: '' @ m)"
| "toStr (JSTypeError m) = (if m = [] then ''TypeError'' else ''TypeError: '' @ m)"
| "toStr (JSResponse status) = ''[object Response]''"
| "toStr (JSString s) = s"

record response =
  ok :: bool
  status :: nat
  statusText :: string
  body :: string

text \<open>One JSON object of the GitHub content API, and one entry of a directory answer.\<close>

record gh_json =
  content :: "string option"
  encoding :: "string option"
  sha :: "string option"

record gh_entry =
  entry_type :: string
  entry_name :: string

type_synonym bytes = "8 word list"

text \<open>
  The host environment the class talks to. Every field is a platform or network
  service that is not part of the repository: \<open>fetch\<close>, the \<open>URL\<close> constructor, the
  \<open>DOMParser\<close>, \<open>atob\<close>, \<open>TextDecoder\<close>, the permission query of a folder handle and
  the token message of the parent frame. A \<open>None\<close> of \<open>url_href\<close>, \<open>url_resolve\<close> and
  \<open>atob\<close> is the exception these throw on malformed input. The model covers the runs
  in which every awaited promise settles.
\<close>

record env =
  fetch :: "string \<Rightarrow> thrown + response"
  fetch_json :: "string \<Rightarrow> thrown + gh_json"
  fetch_listing :: "string \<Rightarrow> thrown + gh_entry list option"
  url_href :: "string \<Rightarrow> string option"
  url_resolve :: "string \<Rightarrow> string \<Rightarrow> string option"
  dom_links :: "string \<Rightarrow> (string option \<times> string) list"
  atob :: "string \<Rightarrow> bytes option"
  utf8_decode :: "bytes \<Rightarrow> string"
  queryPermission :: "handle \<Rightarrow> string"
  auth_reply :: "string \<times> string"

text \<open>
  The fields of an \<open>HTTPFileSystem\<close> instance. \<open>store\<close>, when present, answers the
  permission request it is committed with the user's decision.
\<close>

record HTTPFileSystem =
  baseUrl :: string
  urlId :: string
  needsAuth :: bool
  fsHandle :: "handle option"
  store :: "(handle \<Rightarrow> bool) option"
  isGithub :: bool

text \<open>The constructor's treatment of the base URL (the cache partition is created lazily in the model).\<close>

definition mkBaseUrl :: "string \<Rightarrow> string" where
  "mkBaseUrl baseURL = (if endsWith baseURL ''/'' then baseURL else baseURL @ ''/'')"

text \<open>
  The module-level \<open>CACHE\<close>: slug, then directory, to listing. A slug without entries
  and a slug mapped to \<open>{}\<close> are the same empty partition. The second component of a
  state is the log of the URLs requested from the network, oldest first.
\<close>

type_synonym cache = "string \<Rightarrow> string \<rightharpoonup> DirectoryEntry"

type_synonym world = "string list"

definition clearCache :: "HTTPFileSystem \<Rightarrow> cache \<Rightarrow> cache" where
  "clearCache fs c = c(urlId fs := Map.empty)"

section \<open>Permission gate\<close>

text \<open>
  \<^verbatim>\<open>
  async getChromePermission(handle: any) {
    if (!handle) return true;
    const status = await handle.queryPermission({ mode: 'read' });
    if (status !== 'granted') {
      if (!this.store) return true;
      const granted = new Promise<boolean>(resolve => {
        this.store.commit('setFileHandleForPermissionRequest', { handle, resolve });
      });
      const resolved = await granted;
      return resolved;
    }
    return true;
  }
  \<close>
\<close>

definition getChromePermission :: "env \<Rightarrow> HTTPFileSystem \<Rightarrow> handle option \<Rightarrow> bool" where
  "getChromePermission e fs h =
     (case h of
        None \<Rightarrow> True
      | Some dir \<Rightarrow>
          if queryPermission e dir \<noteq> ''granted'' then
            (case store fs of None \<Rightarrow> True | Some decide \<Rightarrow> decide dir)
          else True)"

section \<open>Path sanitising\<close>

definition toLower :: "char \<Rightarrow> char" where
  "toLower c = (let n = (of_char c :: nat) in if 65 \<le> n \<and> n \<le> 90 then char_of (n + 32) else c)"

definition toLowerCase :: "string \<Rightarrow> string" where
  "toLowerCase s = map toLower s"

text \<open>
  \<open>scaryPath.replace(/^0-9a-zA-Z_\-\/:+/i, '')\<close>. The pattern has no character class:
  anchored at the start, it is the twelve literal characters \<open>0-9a-zA-Z_-/\<close> (letters
  in either case, by the \<open>i\<close> flag) followed by one or more colons, all of them taken.
\<close>

definition stripScary :: "string \<Rightarrow> string" where
  "stripScary s =
     (if toLowerCase (take 12 s) = ''0-9a-za-z_-/'' \<and> startsWith (drop 12 s) '':''
      then dropWhile (\<lambda>c. c = CHR '':'') (drop 12 s)
      else s)"

text \<open>
  \<^verbatim>\<open>
  public cleanURL(scaryPath: string) {
    let path = this.baseUrl + scaryPath.replace(/^0-9a-zA-Z_\-\/:+/i, '');
    path = path.replaceAll('//', '/');
    path = path.replaceAll('//', '/'); // twice just in case!
    path = path.replace('https:/', 'https://');
    path = path.replace('http:/', 'http://');
    path = new URL(path).href;
    return path;
  }
  \<close>
  \<open>cleanPath\<close> is the string handed to the \<open>URL\<close> constructor.
\<close>

definition cleanPath :: "HTTPFileSystem \<Rightarrow> string \<Rightarrow> string" where
  "cleanPath fs scaryPath =
     (let path = baseUrl fs @ stripScary scaryPath;
          path = replaceAll path ''//'' ''/'';
          path = replaceAll path ''//'' ''/'';
          path = replaceFirst path ''https:/'' ''https://'';
          path = replaceFirst path ''http:/'' ''http://''
      in path)"

definition cleanURL :: "env \<Rightarrow> HTTPFileSystem \<Rightarrow> string \<Rightarrow> thrown + string" where
  "cleanURL e fs scaryPath =
     (case url_href e (cleanPath fs scaryPath) of
        None \<Rightarrow> Inl (JSTypeError ''Invalid URL'')
      | Some href \<Rightarrow> Inr href)"

section \<open>Local-handle adapter\<close>

text \<open>
  \<^verbatim>\<open>
  async getDirectoryFromHandle(stillScaryPath: string, store?: any) {
    const contents: DirectoryEntry = { files: [], dirs: [], handles: {} };
    if (!this.fsHandle) return contents;
    const granted = await this.getChromePermission(this.fsHandle);
    if (!granted) return contents;
    let parts = stillScaryPath.split('/').filter(p => !!p);
    const cleanDirParts: string[] = eatDots(parts);
    let currentDir = this.fsHandle as any;
    if (cleanDirParts.length) {
      for (const subfolder of cleanDirParts) {
        let found = false;
        for await (let [name, handle] of currentDir) {
          if (name === subfolder) { currentDir = handle; found = true; break; }
        }
        if (!found) throw Error(`Could not find folder "${subfolder}"`);
      }
    }
    for await (let entry of currentDir.values()) {
      if (contents.handles) contents.handles[entry.name] = entry;
      if (entry.kind === 'file') contents.files.push(entry.name);
      else contents.dirs.push(entry.name);
    }
    return contents;
  }
  \<close>
  Iterating a file handle, which has no entries, is the \<open>TypeError\<close> of the host.
\<close>

definition dquote :: string where
  "dquote = [CHR 0x22]"

fun find_child :: "string \<Rightarrow> handle list \<Rightarrow> handle option" where
  "find_child subfolder [] = None"
| "find_child subfolder (h # hs) =
     (if handle_name h = subfolder then Some h else find_child subfolder hs)"

fun walk :: "handle \<Rightarrow> string list \<Rightarrow> thrown + handle" where
  "walk currentDir [] = Inr currentDir"
| "walk (FileHandle n) (subfolder # rest) = Inl (JSTypeError ''currentDir is not async iterable'')"
| "walk (DirHandle n kids) (subfolder # rest) =
     (case find_child subfolder kids of
        None \<Rightarrow> Inl (JSError (''Could not find folder '' @ dquote @ subfolder @ dquote))
      | Some h \<Rightarrow> walk h rest)"

fun list_children :: "handle list \<Rightarrow> DirectoryEntry \<Rightarrow> DirectoryEntry" where
  "list_children [] contents = contents"
| "list_children (entry # es) contents =
     list_children es
       (let c = contents\<lparr>handles := (handles contents)(handle_name entry \<mapsto> entry)\<rparr> in
        if is_file entry then c\<lparr>files := files c @ [handle_name entry]\<rparr>
        else c\<lparr>dirs := dirs c @ [handle_name entry]\<rparr>)"

definition getDirectoryFromHandle :: "env \<Rightarrow> HTTPFileSystem \<Rightarrow> string \<Rightarrow> thrown + DirectoryEntry" where
  "getDirectoryFromHandle e fs stillScaryPath =
     (let contents = emptyEntry in
      case fsHandle fs of
        None \<Rightarrow> Inr contents
      | Some root \<Rightarrow>
          if \<not> getChromePermission e fs (fsHandle fs) then Inr contents
          else
            let parts = nonblank (split stillScaryPath ''/'');
                cleanDirParts = eatDots parts
            in case walk root cleanDirParts of
                 Inl err \<Rightarrow> Inl err
               | Inr (FileHandle n) \<Rightarrow> Inl (JSTypeError ''currentDir.values is not a function'')
               | Inr (DirHandle n kids) \<Rightarrow> Inr (list_children kids contents))"

section \<open>GitHub adapter\<close>

text \<open>
  \<open>const BINARIES = /.*\.(avro|dbf|gpkg|gz|h5|jpg|jpeg|omx|png|shp|shx|sqlite|zip|zst)$/\<close>.
  The pattern is not anchored at the start and \<open>.*\<close> may be empty, so \<open>BINARIES.test(s)\<close>
  holds exactly when \<open>s\<close> ends with a dot and one of the alternatives.
\<close>

definition BINARIES :: "string list" where
  "BINARIES = [''avro'', ''dbf'', ''gpkg'', ''gz'', ''h5'', ''jpg'', ''jpeg'', ''omx'', ''png'',
               ''shp'', ''shx'', ''sqlite'', ''zip'', ''zst'']"

definition BINARIES_test :: "string \<Rightarrow> bool" where
  "BINARIES_test s = list_ex (\<lambda>ext. endsWith s (''.'' @ ext)) BINARIES"

fun join :: "string list \<Rightarrow> string \<Rightarrow> string" where
  "join [] sep = []"
| "join [x] sep = x"
| "join (x # y # ys) sep = x @ sep @ join (y # ys) sep"

text \<open>
  \<^verbatim>\<open>
  let path = scaryPath.replace(/^0-9a-zA-Z_\-\/:+/i, '');
  path = path.replaceAll('//', '/');
  if (path.startsWith('/')) path = path.slice(1);
  const bits = path.split('/').filter(m => !!m);
  \<close>
\<close>

definition github_bits :: "string \<Rightarrow> string list" where
  "github_bits scaryPath =
     (let path = stripScary scaryPath;
          path = replaceAll path ''//'' ''/'';
          path = (if startsWith path ''/'' then drop 1 path else path)
      in nonblank (split path ''/''))"

text \<open>The content a GitHub file read resolves to: raw bytes, text, or \<open>undefined\<close>.\<close>

datatype gh_content = Bytes bytes | Text string | Undefined

text \<open>
  \<^verbatim>\<open>
  if (json.encoding == 'base64') {
    const binaryString = Uint8Array.from(atob(json.content), char => char.charCodeAt(0));
    if (BINARIES.test(scaryPath.toLocaleLowerCase())) content = binaryString;
    else content = new TextDecoder().decode(binaryString);
  } else if (json.encoding == 'utf-8') {
    content = new TextDecoder().decode(json.content);
  } else {
    content = json.content;
  }
  \<close>
  \<open>toLocaleLowerCase\<close> is taken in a locale whose lower-casing of ASCII letters is the
  usual one. \<open>TextDecoder.decode\<close> accepts a buffer only: given a string it throws.
\<close>

definition gh_decode :: "env \<Rightarrow> string \<Rightarrow> gh_json \<Rightarrow> thrown + gh_content" where
  "gh_decode e scaryPath json =
     (if encoding json = Some ''base64'' then
        (case atob e (case content json of None \<Rightarrow> ''undefined'' | Some c \<Rightarrow> c) of
           None \<Rightarrow> Inl (JSString ''InvalidCharacterError'')
         | Some binaryString \<Rightarrow>
             if BINARIES_test (toLowerCase scaryPath) then Inr (Bytes binaryString)
             else Inr (Text (utf8_decode e binaryString)))
      else if encoding json = Some ''utf-8'' then
        (case content json of
           None \<Rightarrow> Inr (Text [])
         | Some c \<Rightarrow> Inl (JSTypeError ''The provided value is not of type (ArrayBuffer or ArrayBufferView)''))
      else Inr (case content json of None \<Rightarrow> Undefined | Some c \<Rightarrow> Text c))"

text \<open>
  \<^verbatim>\<open>
  private async _getFileFromGitHub(scaryPath: string): Promise<Response> {
    ...
    if (bits.length < 2) { return new Promise((resolve, reject) => { resolve(null as any); }); }
    const ownerRepo = `${bits[0]}/${bits[1]}`;
    let ghUrl = `https://api.github.com/repos/${ownerRepo}/contents/`;
    bits.shift(); bits.shift();
    ghUrl += bits.join('/');
    let json = await await fetch(ghUrl, { headers }).then(r => r.json());
    let content = json.content;
    if (!content) {
      ghUrl = `https://api.github.com/repos/${ownerRepo}/git/blobs/${json.sha}`;
      json = await await fetch(ghUrl, { headers }).then(r => r.json());
      content = json.content;
    }
    ...
  \<close>
  The result is the \<open>content\<close> the returned response object serves; \<open>None\<close> is the
  \<open>null\<close> response of a path with fewer than two segments.
\<close>

definition getFileFromGitHub ::
  "env \<Rightarrow> string \<Rightarrow> world \<Rightarrow> (thrown + gh_content option) \<times> world" where
  "getFileFromGitHub e scaryPath w =
     (let bits = github_bits scaryPath in
      if length bits < 2 then (Inr None, w)
      else
        let ownerRepo = bits ! 0 @ ''/'' @ bits ! 1;
            ghUrl = ''https://api.github.com/repos/'' @ ownerRepo @ ''/contents/''
                    @ join (drop 2 bits) ''/''
        in case fetch_json e ghUrl of
             Inl err \<Rightarrow> (Inl err, w @ [ghUrl])
           | Inr json \<Rightarrow>
               if content json = None \<or> content json = Some [] then
                 (let blobUrl = ''https://api.github.com/repos/'' @ ownerRepo @ ''/git/blobs/''
                                @ (case sha json of None \<Rightarrow> ''undefined'' | Some s \<Rightarrow> s)
                  in case fetch_json e blobUrl of
                       Inl err \<Rightarrow> (Inl err, w @ [ghUrl, blobUrl])
                     | Inr json2 \<Rightarrow> (map_sum id Some (gh_decode e scaryPath json2), w @ [ghUrl, blobUrl]))
               else (map_sum id Some (gh_decode e scaryPath json), w @ [ghUrl]))"

text \<open>
  \<^verbatim>\<open>
  private async _getDirectoryFromGitHub(scaryPath: string): Promise<DirectoryEntry> {
    ...
    const listing = { dirs: [], files: [], handles: {} } as DirectoryEntry;
    const bits = path.split('/').filter(m => !!m);
    if (bits.length < 2) { return listing; }
    let ghUrl = `https://api.github.com/repos/${bits[0]}/${bits[1]}/contents/`;
    bits.shift(); bits.shift();
    ghUrl += bits.join('/');
    const json = (await await fetch(ghUrl, { headers }).then(r => r.json())) as any[];
    json.forEach(entry => {
      if (entry.type == 'file') listing.files.push(entry.name);
      if (entry.type == 'dir') listing.dirs.push(entry.name);
    });
    return listing;
  }
  \<close>
  \<open>fetch_listing\<close> answers \<open>None\<close> when the JSON is not an array.
\<close>

definition add_entry :: "DirectoryEntry \<Rightarrow> gh_entry \<Rightarrow> DirectoryEntry" where
  "add_entry listing entry =
     (let l = (if entry_type entry = ''file''
               then listing\<lparr>files := files listing @ [entry_name entry]\<rparr> else listing)
      in if entry_type entry = ''dir'' then l\<lparr>dirs := dirs l @ [entry_name entry]\<rparr> else l)"

definition getDirectoryFromGitHub ::
  "env \<Rightarrow> string \<Rightarrow> world \<Rightarrow> (thrown + DirectoryEntry) \<times> world" where
  "getDirectoryFromGitHub e scaryPath w =
     (let bits = github_bits scaryPath; listing = emptyEntry in
      if length bits < 2 then (Inr listing, w)
      else
        let ghUrl = ''https://api.github.com/repos/'' @ bits ! 0 @ ''/'' @ bits ! 1 @ ''/contents/''
                    @ join (drop 2 bits) ''/''
        in case fetch_listing e ghUrl of
             Inl err \<Rightarrow> (Inl err, w @ [ghUrl])
           | Inr None \<Rightarrow> (Inl (JSTypeError ''json.forEach is not a function''), w @ [ghUrl])
           | Inr (Some json) \<Rightarrow> (Inr (foldl add_entry listing json), w @ [ghUrl]))"

section \<open>Directory-listing parsers\<close>

text \<open>
  The regular expressions \<open>/"(.*?)"/\<close> and \<open>/">(.*?)<\/a/\<close>: an opening literal, the
  shortest run of characters other than line terminators, a closing literal; the match
  is the leftmost one and the result its captured group. \<open>lazy_until close s\<close> is the captured group
  when the opening literal has just been read, \<open>match_between\<close> tries each start.
\<close>

definition is_line_terminator :: "char \<Rightarrow> bool" where
  "is_line_terminator c = (c = CHR 0x0A \<or> c = CHR 0x0D)"

fun lazy_until :: "string \<Rightarrow> string \<Rightarrow> string option" where
  "lazy_until close [] = (if close = [] then Some [] else None)"
| "lazy_until close (c # cs) =
     (if startsWith (c # cs) close then Some []
      else if is_line_terminator c then None
      else map_option ((#) c) (lazy_until close cs))"

fun match_between :: "string \<Rightarrow> string \<Rightarrow> string \<Rightarrow> string option" where
  "match_between opening close [] = None"
| "match_between opening close (c # cs) =
     (if startsWith (c # cs) opening then
        (case lazy_until close (drop (length opening) (c # cs)) of
           Some captured \<Rightarrow> Some captured
         | None \<Rightarrow> match_between opening close cs)
      else match_between opening close cs)"

definition quoted :: "string \<Rightarrow> string option" where
  "quoted line = match_between dquote dquote line"

text \<open>\<open>s.substring(i)\<close> and \<open>s.slice(i)\<close> for an index that may be negative.\<close>

definition substring_from :: "string \<Rightarrow> int \<Rightarrow> string" where
  "substring_from s i = drop (nat i) s"

definition slice_from :: "string \<Rightarrow> int \<Rightarrow> string" where
  "slice_from s i = (if i < 0 then drop (nat (int (length s) + i)) s else drop (nat i) s)"

text \<open>
  The step every dialect ends with:
  \<^verbatim>\<open>
  if (name.endsWith('/')) dirs.push(name.substring(0, name.length - 1));
  else files.push(name);
  \<close>
  on the pair \<open>(dirs, files)\<close>.
\<close>

definition classify :: "string list \<times> string list \<Rightarrow> string \<Rightarrow> string list \<times> string list" where
  "classify acc name =
     (if endsWith name ''/'' then (fst acc @ [butlast name], snd acc)
      else (fst acc, snd acc @ [name]))"

definition mkEntry :: "string list \<times> string list \<Rightarrow> DirectoryEntry" where
  "mkEntry acc = \<lparr>files = snd acc, dirs = fst acc, handles = Map.empty, html = None\<rparr>"

text \<open>
  Each dialect's loop body either \<open>continue\<close>s or classifies one name; \<open>*_name line\<close> is
  the name of a line, \<open>None\<close> where the body continues.
  \<^verbatim>\<open>
  private buildListFromSimpleWebServer(data: string): DirectoryEntry {
    const regex = /">(.*?)<\/a/;
    const lines = data.split('\n');
    for (const line of lines) {
      const href = line.indexOf('<li><a href="');
      if (href < 0) continue;
      const entry = line.match(regex);
      if (!entry) continue;
      const name = entry[1];
      if (name.endsWith('/')) dirs.push(name.substring(0, name.length - 1));
      else files.push(name);
    }
    return { dirs, files, handles: {} };
  }
  \<close>
\<close>

definition nl :: string where
  "nl = [CHR 0x0A]"

definition sws_name :: "string \<Rightarrow> string option" where
  "sws_name line =
     (if str_indexOf line (''<li><a href='' @ dquote) < 0 then None
      else match_between (dquote @ ''>'') ''</a'' line)"

definition buildListFromSimpleWebServer :: "string \<Rightarrow> DirectoryEntry" where
  "buildListFromSimpleWebServer data =
     mkEntry (foldl classify ([], []) (List.map_filter sws_name (split data nl)))"

text \<open>
  \<^verbatim>\<open>
  private buildListFromNpxServe(data: string): DirectoryEntry {
    const regex = /"(.*?)"/;
    const lines = data.split('</li>').map(line => line.slice(line.lastIndexOf('<li')));
    for (const line of lines) {
      const href = line.indexOf('<li> <a href="');
      if (href < 0 || href > 512) continue;
      const entry = line.match(regex);
      if (!entry) continue;
      let name = entry[1];
      name = name.replaceAll('&#47;', '/');
      if (name === '/') continue;
      if (name === '../') continue;
      if (name.endsWith('/')) dirs.push(name.substring(0, name.length - 1));
      else files.push(name);
    }
    dirs = dirs.map(d => d.slice(1 + d.lastIndexOf('/')));
    files = files.map(d => d.slice(1 + d.lastIndexOf('/')));
    return { dirs, files, handles: {} };
  }
  \<close>
\<close>

definition npx_name :: "string \<Rightarrow> string option" where
  "npx_name line =
     (let href = str_indexOf line (''<li> <a href='' @ dquote) in
      if href < 0 \<or> href > 512 then None
      else case quoted line of
             None \<Rightarrow> None
           | Some captured \<Rightarrow>
               let name = replaceAll captured ''&#47;'' ''/'' in
               if name = ''/'' then None else if name = ''../'' then None else Some name)"

definition last_segment :: "string \<Rightarrow> string" where
  "last_segment d = slice_from d (1 + str_lastIndexOf d ''/'')"

definition buildListFromNpxServe :: "string \<Rightarrow> DirectoryEntry" where
  "buildListFromNpxServe data =
     (let lines = map (\<lambda>line. slice_from line (str_lastIndexOf line ''<li'')) (split data ''</li>'');
          acc = foldl classify ([], []) (List.map_filter npx_name lines)
      in mkEntry (map last_segment (fst acc), map last_segment (snd acc)))"

text \<open>
  \<^verbatim>\<open>
  private buildListFromSVN(data: string): DirectoryEntry {
    const regex = /"(.*?)"/;
    const lines = data.split('\n');
    for (const line of lines) {
      const href = line.indexOf('<li><a href="');
      if (href < 0) continue;
      const entry = line.match(regex);
      if (!entry) continue;
      let name = entry[1];
      if (name === '../') continue;
      if (name.startsWith('./')) name = name.substring(2);
      if (name.endsWith('/')) dirs.push(name.substring(0, name.length - 1));
      else files.push(name);
    }
    return { dirs, files, handles: {} };
  }
  \<close>
\<close>

definition svn_name :: "string \<Rightarrow> string option" where
  "svn_name line =
     (if str_indexOf line (''<li><a href='' @ dquote) < 0 then None
      else case quoted line of
             None \<Rightarrow> None
           | Some name \<Rightarrow>
               if name = ''../'' then None
               else Some (if startsWith name ''./'' then drop 2 name else name))"

definition buildListFromSVN :: "string \<Rightarrow> DirectoryEntry" where
  "buildListFromSVN data =
     mkEntry (foldl classify ([], []) (List.map_filter svn_name (split data nl)))"

text \<open>
  \<^verbatim>\<open>
  private buildListFromApache24(data: string): DirectoryEntry {
    ...
    for (const line of lines) {
      if (line.indexOf('<th "') > -1) continue;
      if (line.indexOf('[PARENTDIR]') > -1) continue;
      const href = line.indexOf('<td><a href="');
      if (href < 0) continue;
      const entry = line.substring(href).match(regex);
      if (!entry) continue;
      const name = entry[1];
      if (name === '../') continue;
      ...
  \<close>
\<close>

definition apache_name :: "string \<Rightarrow> string option" where
  "apache_name line =
     (if str_indexOf line (''<th '' @ dquote) > -1 then None
      else if str_indexOf line ''[PARENTDIR]'' > -1 then None
      else let href = str_indexOf line (''<td><a href='' @ dquote) in
        if href < 0 then None
        else case quoted (substring_from line href) of
               None \<Rightarrow> None
             | Some name \<Rightarrow> if name = ''../'' then None else Some name)"

definition buildListFromApache24 :: "string \<Rightarrow> DirectoryEntry" where
  "buildListFromApache24 data =
     mkEntry (foldl classify ([], []) (List.map_filter apache_name (split data nl)))"

text \<open>
  \<^verbatim>\<open>
  private buildListFromNGINX(data: string): DirectoryEntry {
    ...
    for (const line of lines) {
      const href = line.indexOf('<a href="');
      if (href < 0) continue;
      const entry = line.substring(href).match(regex);
      if (!entry) continue;
      const name = entry[1];
      if (name === '../') continue;
      ...
  \<close>
\<close>

definition nginx_name :: "string \<Rightarrow> string option" where
  "nginx_name line =
     (let href = str_indexOf line (''<a href='' @ dquote) in
      if href < 0 then None
      else case quoted (substring_from line href) of
             None \<Rightarrow> None
           | Some name \<Rightarrow> if name = ''../'' then None else Some name)"

definition buildListFromNGINX :: "string \<Rightarrow> DirectoryEntry" where
  "buildListFromNGINX data =
     mkEntry (foldl classify ([], []) (List.map_filter nginx_name (split data nl)))"

text \<open>
  \<^verbatim>\<open>
  private buildListFromHtml(data: string): DirectoryEntry {
    if (data.indexOf('SimpleWebServer') > -1) return this.buildListFromSimpleWebServer(data);
    if (data.indexOf('<ul>') > -1) return this.buildListFromSVN(data);
    if (data.indexOf('<ul id="files">') > -1) return this.buildListFromNpxServe(data);
    if (data.indexOf('<table>') > -1) return this.buildListFromApache24(data);
    if (data.indexOf('\n<a ') > -1) return this.buildListFromNGINX(data);
    return { dirs: [], files: [], handles: {} };
  }
  \<close>
\<close>

definition buildListFromHtml :: "string \<Rightarrow> DirectoryEntry" where
  "buildListFromHtml data =
     (if str_indexOf data ''SimpleWebServer'' > -1 then buildListFromSimpleWebServer data
      else if str_indexOf data ''<ul>'' > -1 then buildListFromSVN data
      else if str_indexOf data (''<ul id='' @ dquote @ ''files'' @ dquote @ ''>'') > -1
        then buildListFromNpxServe data
      else if str_indexOf data ''<table>'' > -1 then buildListFromApache24 data
      else if str_indexOf data (nl @ ''<a '') > -1 then buildListFromNGINX data
      else emptyEntry)"

text \<open>
  The DOM-based parser. \<open>dom_links\<close> of the environment is
  \<open>doc.querySelectorAll('a')\<close> after \<open>DOMParser.parseFromString\<close>: for each anchor its
  \<open>href\<close> attribute (\<open>None\<close> when absent) and its trimmed text content.
  \<^verbatim>\<open>
  links.forEach(link => {
    const href = link.getAttribute('href');
    const text = link.textContent?.trim();
    if (href === '../' || text === '..') { return; }
    if (href && text) {
      if (href.endsWith('/') && text.endsWith('/')) {
        const dirName = href.replace(/\/$/, '');
        dirs.push(dirName);
      }
      else if (!href.endsWith('/') && !text.endsWith('/')) { files.push(href); }
    }
  });
  return { files, dirs };
  \<close>
\<close>

definition parse_link ::
  "string list \<times> string list \<Rightarrow> string option \<times> string \<Rightarrow> string list \<times> string list" where
  "parse_link acc link =
     (let href = fst link; text = snd link in
      if href = Some ''../'' \<or> text = ''..'' then acc
      else case href of
             None \<Rightarrow> acc
           | Some h \<Rightarrow>
               if h \<noteq> [] \<and> text \<noteq> [] then
                 (if endsWith h ''/'' \<and> endsWith text ''/''
                    then (fst acc @ [if endsWith h ''/'' then butlast h else h], snd acc)
                  else if \<not> endsWith h ''/'' \<and> \<not> endsWith text ''/''
                    then (fst acc, snd acc @ [h])
                  else acc)
               else acc)"

definition parseHtmlDirectoryListing :: "env \<Rightarrow> string \<Rightarrow> string list \<times> string list" where
  "parseHtmlDirectoryListing e htmlText = foldl parse_link ([], []) (dom_links e htmlText)"

section \<open>Authenticated-proxy and generic-HTTP adapters\<close>

text \<open>
  The token exchange with the parent frame: the reply's \<open>accessToken\<close> and
  \<open>username\<close> (empty when absent), both of which must be truthy.
\<close>

definition auth_token :: "env \<Rightarrow> thrown + string" where
  "auth_token e =
     (let token = fst (auth_reply e); username = snd (auth_reply e) in
      if token \<noteq> [] \<and> username \<noteq> [] then Inr token
      else Inl (JSError ''No token or username received from parent.''))"

definition strip_leading_slashes :: "string \<Rightarrow> string" where
  "strip_leading_slashes s = dropWhile (\<lambda>c. c = CHR ''/'') s"

definition strip_trailing_slashes :: "string \<Rightarrow> string" where
  "strip_trailing_slashes s = rev (dropWhile (\<lambda>c. c = CHR ''/'') (rev s))"

text \<open>\<open>/\.[a-zA-Z0-9]+$/.test(s)\<close>: a dot and at least one alphanumeric character end \<open>s\<close>.\<close>

definition is_alnum :: "char \<Rightarrow> bool" where
  "is_alnum c = (let n = (of_char c :: nat) in
     (48 \<le> n \<and> n \<le> 57) \<or> (65 \<le> n \<and> n \<le> 90) \<or> (97 \<le> n \<and> n \<le> 122))"

definition has_dot_extension :: "string \<Rightarrow> bool" where
  "has_dot_extension s =
     (let run = takeWhile is_alnum (rev s) in
      run \<noteq> [] \<and> startsWith (drop (length run) (rev s)) ''.'')"

text \<open>
  \<^verbatim>\<open>
  private async _getDirectoryFromAWS(scaryPath: string): Promise<DirectoryEntry> {
    const { token, username } = await new Promise(...);
    if (!token || !username) { throw new Error('No authentication token or username found. Please log in.'); }
    headers['Authorization'] = `Bearer ${token}`;
    scaryPath = scaryPath.replace(/^\/+/, '');
    const fullPath = new URL(scaryPath, this.baseUrl).href;
    const isDirectory = !/\.[a-zA-Z0-9]+$/.test(scaryPath);
    const normalizedPath = isDirectory ? fullPath.replace(/\/+$/, '') + '/' : fullPath.replace(/\/+$/, '');
    const response = await fetch(normalizedPath, { method: 'GET', headers });
    if (!response.ok) { throw new Error(`Failed to fetch AWS directory: ${response.statusText}`); }
    const htmlText = await response.text();
    const { files, dirs } = this.parseHtmlDirectoryListing(htmlText);
    return { files, dirs, handles: {}, html: htmlText };
  }
  \<close>
\<close>

definition getDirectoryFromAWS ::
  "env \<Rightarrow> HTTPFileSystem \<Rightarrow> string \<Rightarrow> world \<Rightarrow> (thrown + DirectoryEntry) \<times> world" where
  "getDirectoryFromAWS e fs scaryPath w =
     (case auth_token e of
        Inl err \<Rightarrow> (Inl err, w)
      | Inr token \<Rightarrow>
          let scaryPath = strip_leading_slashes scaryPath in
          case url_resolve e scaryPath (baseUrl fs) of
            None \<Rightarrow> (Inl (JSTypeError ''Invalid URL''), w)
          | Some fullPath \<Rightarrow>
              let isDirectory = \<not> has_dot_extension scaryPath;
                  normalizedPath = (if isDirectory then strip_trailing_slashes fullPath @ ''/''
                                    else strip_trailing_slashes fullPath)
              in case fetch e normalizedPath of
                   Inl err \<Rightarrow> (Inl err, w @ [normalizedPath])
                 | Inr response \<Rightarrow>
                     if \<not> ok response then
                       (Inl (JSError (''Failed to fetch AWS directory: '' @ statusText response)),
                        w @ [normalizedPath])
                     else
                       let htmlText = body response;
                           parsed = parseHtmlDirectoryListing e htmlText
                       in (Inr \<lparr>files = snd parsed, dirs = fst parsed, handles = Map.empty,
                                 html = Some htmlText\<rparr>,
                           w @ [normalizedPath]))"

text \<open>
  \<^verbatim>\<open>
  private async _getFileFetchResponse(scaryPath: string): Promise<Response> {
    if (this.needsAuth) {
      const { token, username } = await new Promise(...);
      ...
      scaryPath = scaryPath.replace(/^\/+|\/+$/g, '');
      const baseUrl = this.baseUrl.endsWith('/') ? this.baseUrl.slice(0, -1) : this.baseUrl;
      const fullPath = `${baseUrl}/${scaryPath}`;
      const response = await fetch(fullPath, { method: 'GET', headers });
      if (!response.ok) { throw response; }
      return response;
    } else {
      const path = this.cleanURL(scaryPath);
      const response = await fetch(path, { headers });
      if (!response.ok) { throw response; }
      return response;
    }
  }
  \<close>
\<close>

definition fetch_ok :: "env \<Rightarrow> string \<Rightarrow> world \<Rightarrow> (thrown + response) \<times> world" where
  "fetch_ok e url w =
     (case fetch e url of
        Inl err \<Rightarrow> (Inl err, w @ [url])
      | Inr r \<Rightarrow> if \<not> ok r then (Inl (JSResponse (status r)), w @ [url]) else (Inr r, w @ [url]))"

definition getFileFetchResponse ::
  "env \<Rightarrow> HTTPFileSystem \<Rightarrow> string \<Rightarrow> world \<Rightarrow> (thrown + response) \<times> world" where
  "getFileFetchResponse e fs scaryPath w =
     (if needsAuth fs then
        (case auth_token e of
           Inl err \<Rightarrow> (Inl err, w)
         | Inr token \<Rightarrow>
             let scaryPath = strip_trailing_slashes (strip_leading_slashes scaryPath);
                 base = (if endsWith (baseUrl fs) ''/'' then butlast (baseUrl fs) else baseUrl fs);
                 fullPath = base @ ''/'' @ scaryPath
             in fetch_ok e fullPath w)
      else
        (case cleanURL e fs scaryPath of
           Inl err \<Rightarrow> (Inl err, w)
         | Inr path \<Rightarrow> fetch_ok e path w))"

text \<open>
  \<^verbatim>\<open>
  async getDirectoryFromURL(stillScaryPath: string) {
    const response = await this._getFileResponse(stillScaryPath).then();
    const htmlListing = await response.text();
    const dirEntry = this.buildListFromHtml(htmlListing);
    return dirEntry;
  }
  \<close>
  \<open>getDirectory\<close> comes here only when the instance has no folder handle and is not a
  GitHub root, where \<open>_getFileResponse\<close> is \<open>_getFileFetchResponse\<close>.
\<close>

definition getDirectoryFromURL ::
  "env \<Rightarrow> HTTPFileSystem \<Rightarrow> string \<Rightarrow> world \<Rightarrow> (thrown + DirectoryEntry) \<times> world" where
  "getDirectoryFromURL e fs stillScaryPath w =
     (case getFileFetchResponse e fs stillScaryPath w of
        (Inl err, w') \<Rightarrow> (Inl err, w')
      | (Inr response, w') \<Rightarrow> (Inr (buildListFromHtml (body response)), w'))"

section \<open>Front door: cached directory listing\<close>

text \<open>
  \<^verbatim>\<open>
  async getDirectory(scaryPath: string): Promise<DirectoryEntry> {
    let stillScaryPath = scaryPath.replaceAll('//', '/');
    if (!stillScaryPath.endsWith('/')) stillScaryPath += '/';
    const cachedEntry = CACHE[this.urlId][stillScaryPath];
    if (cachedEntry) return cachedEntry;
    stillScaryPath = stillScaryPath.replaceAll('/./', '/');
    try {
      let dirEntry: DirectoryEntry;
      if (this.fsHandle) dirEntry = await this.getDirectoryFromHandle(stillScaryPath);
      else if (this.isGithub) dirEntry = await this._getDirectoryFromGitHub(stillScaryPath);
      else if (this.needsAuth) dirEntry = await this._getDirectoryFromAWS(stillScaryPath);
      else dirEntry = await this.getDirectoryFromURL(stillScaryPath);
      dirEntry.dirs.sort((a, b) => naturalSort(a, b));
      dirEntry.files.sort((a, b) => naturalSort(a, b));
      CACHE[this.urlId][stillScaryPath] = dirEntry;
      return dirEntry;
    } catch (e) {
      throw Error('' + e);
    }
  }
  \<close>
  \<open>lookupKey\<close> is the key the cache is read with, \<open>storeKey\<close> the key it is written
  with. \<open>getDirectoryWith\<close> is the method over any listing function \<open>backend\<close> with a
  state \<open>'w\<close> of its own; \<open>nsort\<close> is the sort by the library comparator \<open>naturalSort\<close>.
\<close>

definition lookupKey :: "string \<Rightarrow> string" where
  "lookupKey scaryPath =
     (let stillScaryPath = replaceAll scaryPath ''//'' ''/'' in
      if \<not> endsWith stillScaryPath ''/'' then stillScaryPath @ ''/'' else stillScaryPath)"

definition storeKey :: "string \<Rightarrow> string" where
  "storeKey scaryPath = replaceAll (lookupKey scaryPath) ''/./'' ''/''"

definition getDirectoryWith ::
  "(string list \<Rightarrow> string list) \<Rightarrow> (string \<Rightarrow> 'w \<Rightarrow> (thrown + DirectoryEntry) \<times> 'w) \<Rightarrow> string
     \<Rightarrow> string \<Rightarrow> cache \<times> 'w \<Rightarrow> (thrown + DirectoryEntry) \<times> cache \<times> 'w" where
  "getDirectoryWith nsort backend slug scaryPath st =
     (case fst st slug (lookupKey scaryPath) of
        Some cachedEntry \<Rightarrow> (Inr cachedEntry, st)
      | None \<Rightarrow>
          (case backend (storeKey scaryPath) (snd st) of
             (Inl e, w') \<Rightarrow> (Inl (JSError (toStr e)), fst st, w')
           | (Inr dirEntry, w') \<Rightarrow>
               let sorted = dirEntry\<lparr>dirs := nsort (dirs dirEntry), files := nsort (files dirEntry)\<rparr>
               in (Inr sorted,
                   (fst st)(slug := (fst st slug)(storeKey scaryPath \<mapsto> sorted)),
                   w')))"

definition adapter ::
  "env \<Rightarrow> HTTPFileSystem \<Rightarrow> string \<Rightarrow> world \<Rightarrow> (thrown + DirectoryEntry) \<times> world" where
  "adapter e fs stillScaryPath w =
     (if fsHandle fs \<noteq> None then (getDirectoryFromHandle e fs stillScaryPath, w)
      else if isGithub fs then getDirectoryFromGitHub e stillScaryPath w
      else if needsAuth fs then getDirectoryFromAWS e fs stillScaryPath w
      else getDirectoryFromURL e fs stillScaryPath w)"

definition getDirectory ::
  "env \<Rightarrow> (string list \<Rightarrow> string list) \<Rightarrow> HTTPFileSystem \<Rightarrow> string \<Rightarrow> cache \<times> world
     \<Rightarrow> (thrown + DirectoryEntry) \<times> cache \<times> world" where
  "getDirectory e nsort fs scaryPath st = getDirectoryWith nsort (adapter e fs) (urlId fs) scaryPath st"

section \<open>Config discovery\<close>

record YamlConfigs =
  dashboards :: "string \<rightharpoonup> string"
  topsheets :: "string \<rightharpoonup> string"
  vizes :: "string \<rightharpoonup> string"
  configs :: "string \<rightharpoonup> string"

definition YAML_FOLDERS :: "string list" where
  "YAML_FOLDERS = [''simwrapper'', ''.simwrapper'']"

definition dashboard :: string where "dashboard = ''dashboard*.y?(a)ml''"
definition topsheet :: string where "topsheet = ''(topsheet|table)*.y?(a)ml''"
definition viz :: string where "viz = ''viz*.y?(a)ml''"
definition config :: string where "config = ''simwrapper-config.y?(a)ml''"

text \<open>
  \<^verbatim>\<open>
  let currentPath = '/';
  let fullFolder = folder.startsWith('/') ? folder : '/' + folder;
  const pathChunks = fullFolder.split('/');
  for (const chunk of pathChunks.slice(0, pathChunks.length - 1)) {
    currentPath = `${currentPath}${chunk}/`.replaceAll('//', '/');
    try {
      const { dirs } = await this.getDirectory(currentPath);
      for (const dir of dirs) {
        if (YAML_FOLDERS.includes(dir.toLocaleLowerCase())) {
          configFolders.push(`${currentPath}/${dir}`.replaceAll('//', '/'));
        }
      }
    } catch (e) {}
  }
  configFolders.push(folder);
  \<close>
  The loop is \<open>findConfigFolders\<close>, where \<open>gd\<close> stands for \<open>this.getDirectory\<close> and
  \<open>'s\<close> for the state it reads and writes; \<open>candidateFolders\<close> is the whole fragment.
\<close>

fun findConfigFolders ::
  "(string \<Rightarrow> 's \<Rightarrow> (thrown + DirectoryEntry) \<times> 's) \<Rightarrow> string list \<Rightarrow> string \<Rightarrow> string list \<Rightarrow> 's
     \<Rightarrow> string list \<times> 's" where
  "findConfigFolders gd [] currentPath configFolders st = (configFolders, st)"
| "findConfigFolders gd (chunk # chunks) currentPath configFolders st =
     (let currentPath = replaceAll (currentPath @ chunk @ ''/'') ''//'' ''/'' in
      case gd currentPath st of
        (Inl e, st') \<Rightarrow> findConfigFolders gd chunks currentPath configFolders st'
      | (Inr entry, st') \<Rightarrow>
          findConfigFolders gd chunks currentPath
            (configFolders
             @ map (\<lambda>dir. replaceAll (currentPath @ ''/'' @ dir) ''//'' ''/'')
                 (filter (\<lambda>dir. toLowerCase dir \<in> set YAML_FOLDERS) (dirs entry)))
            st')"

definition candidateFolders ::
  "env \<Rightarrow> (string list \<Rightarrow> string list) \<Rightarrow> HTTPFileSystem \<Rightarrow> string \<Rightarrow> cache \<times> world
     \<Rightarrow> string list \<times> cache \<times> world" where
  "candidateFolders e nsort fs folder st =
     (let fullFolder = (if startsWith folder ''/'' then folder else ''/'' @ folder);
          pathChunks = split fullFolder ''/'';
          found = findConfigFolders (getDirectory e nsort fs)
                    (take (length pathChunks - 1) pathChunks) ''/'' [] st
      in (fst found @ [folder], snd found))"

text \<open>
  \<^verbatim>\<open>
  for (const configFolder of configFolders) {
    const { files } = await this.getDirectory(configFolder);
    micromatch.match(files, dashboard)
      .map(yaml => (yamls.dashboards[yaml] = `${configFolder}/${yaml}`.replaceAll('//', '/')));
    micromatch.match(files, topsheet)
      .map(yaml => (yamls.topsheets[yaml] = `${configFolder}/${yaml}`.replaceAll('//', '/')));
    micromatch.match(files, viz)
      .map(yaml => (yamls.vizes[yaml] = `${configFolder}/${yaml}`.replaceAll('//', '/')));
    micromatch.match(files, config)
      .map(yaml => (yamls.configs[yaml] = `${configFolder}/${yaml}`.replaceAll('//', '/')));
  }
  return yamls;
  \<close>
  \<open>mm\<close> is \<open>micromatch.match\<close> of the library; the loop is \<open>collectYamls\<close>, and
  \<open>findAllYamlConfigs\<close> the method.
\<close>

definition resolved :: "string \<Rightarrow> string \<Rightarrow> string" where
  "resolved configFolder yaml = replaceAll (configFolder @ ''/'' @ yaml) ''//'' ''/''"

definition recordMatches :: "string \<Rightarrow> (string \<rightharpoonup> string) \<Rightarrow> string list \<Rightarrow> (string \<rightharpoonup> string)" where
  "recordMatches configFolder m matches =
     foldl (\<lambda>m yaml. m(yaml \<mapsto> resolved configFolder yaml)) m matches"

definition recordFolder ::
  "(string list \<Rightarrow> string \<Rightarrow> string list) \<Rightarrow> string \<Rightarrow> string list \<Rightarrow> YamlConfigs \<Rightarrow> YamlConfigs" where
  "recordFolder mm configFolder fl yamls =
     \<lparr>dashboards = recordMatches configFolder (dashboards yamls) (mm fl dashboard),
      topsheets = recordMatches configFolder (topsheets yamls) (mm fl topsheet),
      vizes = recordMatches configFolder (vizes yamls) (mm fl viz),
      configs = recordMatches configFolder (configs yamls) (mm fl config)\<rparr>"

fun collectYamls ::
  "(string \<Rightarrow> 's \<Rightarrow> (thrown + DirectoryEntry) \<times> 's) \<Rightarrow> (string list \<Rightarrow> string \<Rightarrow> string list)
     \<Rightarrow> string list \<Rightarrow> YamlConfigs \<Rightarrow> 's \<Rightarrow> (thrown + YamlConfigs) \<times> 's" where
  "collectYamls gd mm [] yamls st = (Inr yamls, st)"
| "collectYamls gd mm (configFolder # rest) yamls st =
     (case gd configFolder st of
        (Inl e, st') \<Rightarrow> (Inl e, st')
      | (Inr entry, st') \<Rightarrow>
          collectYamls gd mm rest (recordFolder mm configFolder (files entry) yamls) st')"

definition findAllYamlConfigs ::
  "env \<Rightarrow> (string list \<Rightarrow> string list) \<Rightarrow> (string list \<Rightarrow> string \<Rightarrow> string list)
     \<Rightarrow> HTTPFileSystem \<Rightarrow> string \<Rightarrow> cache \<times> world \<Rightarrow> (thrown + YamlConfigs) \<times> cache \<times> world" where
  "findAllYamlConfigs e nsort mm fs folder st =
     (let yamls = \<lparr>dashboards = Map.empty, topsheets = Map.empty, vizes = Map.empty,
                   configs = Map.empty\<rparr>;
          cands = candidateFolders e nsort fs folder st
      in collectYamls (getDirectory e nsort fs) mm (fst cands) yamls (snd cands))"

section \<open>Decompression pipeline\<close>

text \<open>
  \<^verbatim>\<open>
  private gUnzip(buffer: any): Uint8Array {
    // GZIP always starts with a magic number, hex $8b1f
    const header = new Uint8Array(buffer.slice(0, 2));
    if (header[0] === 0x1f && header[1] === 0x8b) {
      return this.gUnzip(pako.inflate(buffer));
    }
    return buffer;
  }
  \<close>
  \<open>inflate\<close> is \<open>pako.inflate\<close> of the library, which throws on data it cannot
  inflate. Nothing bounds the recursion, so the result is an option: \<open>None\<close> when the
  call never returns.
\<close>

definition isGzip :: "bytes \<Rightarrow> bool" where
  "isGzip buffer = (take 2 buffer = [0x1f, 0x8b])"

partial_function (option) gUnzip :: "(bytes \<Rightarrow> thrown + bytes) \<Rightarrow> bytes \<Rightarrow> (thrown + bytes) option" where
  "gUnzip inflate buffer =
     (if isGzip buffer then
        (case inflate buffer of
           Inl err \<Rightarrow> Some (Inl err)
         | Inr inflated \<Rightarrow> gUnzip inflate inflated)
      else Some (Inr buffer))"

section \<open>The xy-time loader: wildcard expansion\<close>

text \<open>
  The \<open>FileSystemConfig\<close> fields the constructor reads, and the constructor.
  \<^verbatim>\<open>
  constructor(project: FileSystemConfig, store?: any) {
    this.urlId = project.slug;
    this.needsAuth = !!project.needPassword;
    this.fsHandle = project.handle || null;
    this.store = store || null;
    this.isGithub = !!project.isGithub;
    this.baseUrl = project.baseURL;
    if (!project.baseURL.endsWith('/')) this.baseUrl += '/';
    if (!CACHE[this.urlId]) CACHE[this.urlId] = {};
  }
  \<close>
\<close>

record FileSystemConfig =
  slug :: string
  baseURL :: string
  needPassword :: bool
  handle :: "handle option"
  cfgIsGithub :: bool

definition newHTTPFileSystem :: "FileSystemConfig \<Rightarrow> (handle \<Rightarrow> bool) option \<Rightarrow> HTTPFileSystem" where
  "newHTTPFileSystem project st =
     \<lparr>baseUrl = mkBaseUrl (baseURL project), urlId = slug project, needsAuth = needPassword project,
      fsHandle = handle project, store = st, isGithub = cfgIsGithub project\<rparr>"

text \<open>
  \<^verbatim>\<open>
  async function step1PrepareFetch(filepath: string, fileSystem: FileSystemConfig) {
    postMessage({ status: `Loading ${filepath}...` })
    try {
      const httpFileSystem = new HTTPFileSystem(fileSystem)
      let expandedFilename = filepath
      if (filepath.indexOf('*') > -1 || filepath.indexOf('?') > -1) {
        const zDataset = filepath.substring(1 + filepath.lastIndexOf('/'))
        const zSubfolder = filepath.substring(0, filepath.lastIndexOf('/'))
        const { files } = await httpFileSystem.getDirectory(zSubfolder)
        const matchingFiles = findMatchingGlobInFiles(files, zDataset)
        if (matchingFiles.length == 0) throw Error(`No files matched "${zDataset}"`)
        if (matchingFiles.length > 1)
          throw Error(`More than one file matched "${zDataset}": ${matchingFiles}`)
        expandedFilename = `${zSubfolder}/${matchingFiles[0]}`
      }
      const url = `${fileSystem.baseURL}/${expandedFilename}`
      console.log(url)
      return url
    } catch (e) {
      console.error('' + e)
      postMessage({ error: 'Error loading: ' + filepath })
      throw Error('LOAD FAIL! ' + filepath)
    }
  }
  \<close>
  \<open>glob\<close> is \<open>findMatchingGlobInFiles\<close> of \<open>@/js/util\<close>. \<open>expandFilename\<close> is the body of the
  \<open>try\<close> up to the expanded name; the outcome of the whole function carries what it
  returns or throws, the messages it posts and the lines it writes to \<open>console.error\<close>.
\<close>

datatype message = StatusMessage string | ErrorMessage string

record outcome =
  returned :: "thrown + string"
  posted :: "message list"
  console_error :: "string list"

definition expandFilename ::
  "env \<Rightarrow> (string list \<Rightarrow> string list) \<Rightarrow> (string list \<Rightarrow> string \<Rightarrow> string list)
     \<Rightarrow> string \<Rightarrow> FileSystemConfig \<Rightarrow> cache \<times> world \<Rightarrow> (thrown + string) \<times> cache \<times> world" where
  "expandFilename e nsort glob filepath fileSystem st =
     (let httpFileSystem = newHTTPFileSystem fileSystem None in
      if str_indexOf filepath ''*'' > -1 \<or> str_indexOf filepath ''?'' > -1 then
        (let zDataset = substring_from filepath (1 + str_lastIndexOf filepath ''/'');
             zSubfolder = take (nat (str_lastIndexOf filepath ''/'')) filepath
         in case getDirectory e nsort httpFileSystem zSubfolder st of
              (Inl e, st') \<Rightarrow> (Inl e, st')
            | (Inr entry, st') \<Rightarrow>
                let matchingFiles = glob (files entry) zDataset in
                if length matchingFiles = 0 then
                  (Inl (JSError (''No files matched '' @ dquote @ zDataset @ dquote)), st')
                else if length matchingFiles > 1 then
                  (Inl (JSError (''More than one file matched '' @ dquote @ zDataset @ dquote
                                 @ '': '' @ join matchingFiles '','')), st')
                else (Inr (zSubfolder @ ''/'' @ matchingFiles ! 0), st'))
      else (Inr filepath, st))"

definition step1PrepareFetch ::
  "env \<Rightarrow> (string list \<Rightarrow> string list) \<Rightarrow> (string list \<Rightarrow> string \<Rightarrow> string list)
     \<Rightarrow> string \<Rightarrow> FileSystemConfig \<Rightarrow> cache \<times> world \<Rightarrow> outcome \<times> cache \<times> world" where
  "step1PrepareFetch e nsort glob filepath fileSystem st =
     (let loading = StatusMessage (''Loading '' @ filepath @ ''...'') in
      case expandFilename e nsort glob filepath fileSystem st of
        (Inr expandedFilename, st') \<Rightarrow>
          (\<lparr>returned = Inr (baseURL fileSystem @ ''/'' @ expandedFilename),
            posted = [loading], console_error = []\<rparr>, st')
      | (Inl e, st') \<Rightarrow>
          (\<lparr>returned = Inl (JSError (''LOAD FAIL! '' @ filepath)),
            posted = [loading, ErrorMessage (''Error loading: '' @ filepath)],
            console_error = [toStr e]\<rparr>, st'))"

section \<open>A reference codec and a reference host for running the code\<close>

text \<open>
  \<open>pako\<close> is a library. \<open>frame\<close> and \<open>unframe\<close> are a small codec with the two
  properties of gzip that the pipeline relies on: a compressed buffer begins with the
  magic number \<open>0x1F 0x8B\<close> and the method byte \<open>8\<close>, and inflating undoes compressing.
  As \<open>pako.inflate\<close> does, \<open>unframe\<close> throws the string
  \<open>unknown compression method\<close> on a gzip header whose method byte is not \<open>8\<close>.
\<close>

definition frame :: "bytes \<Rightarrow> bytes" where
  "frame p = [0x1f, 0x8b, 0x08] @ p"

definition unframe :: "bytes \<Rightarrow> thrown + bytes" where
  "unframe b = (if take 3 b = [0x1f, 0x8b, 0x08] then Inr (drop 3 b)
                else Inl (JSString ''unknown compression method''))"

text \<open>
  A reference host, for running the code on concrete inputs: a web server
  \<open>http://host\<close> with Subversion-style listings, a GitHub repository, and stand-ins
  for the library functions. On the URLs used here, which have no dot segments and
  nothing to escape, the \<open>href\<close> of the \<open>URL\<close> constructor is the URL itself.
\<close>

definition li :: "string \<Rightarrow> string" where
  "li href = ''<li><a href='' @ dquote @ href @ dquote @ ''>'' @ href @ ''</a></li>''"

definition svn_page :: "string list \<Rightarrow> string" where
  "svn_page hrefs = ''<html><body><ul>'' @ nl @ join (map li (''../'' # hrefs)) nl @ nl @ ''</ul></body></html>''"

definition page :: "string \<Rightarrow> response" where
  "page markup = \<lparr>ok = True, status = 200, statusText = ''OK'', body = markup\<rparr>"

definition not_found :: response where
  "not_found = \<lparr>ok = False, status = 404, statusText = ''Not Found'', body = []\<rparr>"

definition host_fetch :: "string \<Rightarrow> thrown + response" where
  "host_fetch url =
     (if url = ''http://host/data/run/'' then Inr (page (svn_page [''events.csv'', ''plots/'']))
      else if url = ''http://host/mirror/''
        then Inr (page (svn_page [''pub/data/'', ''old//'', ''pub/readme.txt'']))
      else Inr not_found)"

definition host_fetch_json :: "string \<Rightarrow> thrown + gh_json" where
  "host_fetch_json url =
     (if url = ''https://api.github.com/repos/org/repo/contents/img/Logo.PNG''
        then Inr \<lparr>content = Some ''aGk='', encoding = Some ''base64'', sha = Some ''1f''\<rparr>
      else if url = ''https://api.github.com/repos/org/repo/contents/data/trips.csv''
        then Inr \<lparr>content = Some ''aGk='', encoding = Some ''base64'', sha = Some ''2e''\<rparr>
      else Inl (JSTypeError ''Failed to fetch''))"

definition host_atob :: "string \<Rightarrow> bytes option" where
  "host_atob s = (if s = ''aGk='' then Some [0x68, 0x69] else None)"

definition host_env :: env where
  "host_env =
     \<lparr>fetch = host_fetch,
      fetch_json = host_fetch_json,
      fetch_listing = (\<lambda>url. Inr None),
      url_href = Some,
      url_resolve = (\<lambda>rel base. Some (base @ rel)),
      dom_links = (\<lambda>markup. []),
      atob = host_atob,
      utf8_decode = map (\<lambda>b. char_of (unat b)),
      queryPermission = (\<lambda>h. ''prompt''),
      auth_reply = ([], [])\<rparr>"

definition web_root :: HTTPFileSystem where
  "web_root = newHTTPFileSystem
     \<lparr>slug = ''web'', baseURL = ''http://host'', needPassword = False, handle = None,
      cfgIsGithub = False\<rparr> None"

text \<open>A local folder: \<open>/root/simwrapper\<close> and \<open>/root/project\<close>, each with a \<open>dashboard-1.yaml\<close>.\<close>

definition local_tree :: handle where
  "local_tree =
     DirHandle ''picked''
       [DirHandle ''root''
          [DirHandle ''project''
             [FileHandle ''dashboard-1.yaml'', FileHandle ''trips-a.csv'', FileHandle ''trips-b.csv'',
              FileHandle ''viz-map.yml''],
           DirHandle ''simwrapper''
             [FileHandle ''dashboard-1.yaml'', FileHandle ''dashboard-2.yaml'']]]"

definition local_config :: FileSystemConfig where
  "local_config = \<lparr>slug = ''local'', baseURL = [], needPassword = False, handle = Some local_tree,
                    cfgIsGithub = False\<rparr>"

text \<open>
  Stand-ins for the glob libraries: \<open>wild\<close> matches a pattern of literal characters,
  \<open>*\<close> and \<open>?\<close>; the four patterns of config discovery are spelled out for both
  extensions.
\<close>

fun wild :: "string \<Rightarrow> string \<Rightarrow> bool" where
  "wild [] s = (s = [])"
| "wild (p # ps) [] = (p = CHR ''*'' \<and> wild ps [])"
| "wild (p # ps) (c # cs) =
     (if p = CHR ''*'' then wild ps (c # cs) \<or> wild (p # ps) cs
      else (p = CHR ''?'' \<or> p = c) \<and> wild ps cs)"

definition spelled_out :: "string \<Rightarrow> string list" where
  "spelled_out pat =
     (if pat = dashboard then [''dashboard*.yml'', ''dashboard*.yaml'']
      else if pat = topsheet then [''topsheet*.yml'', ''topsheet*.yaml'', ''table*.yml'', ''table*.yaml'']
      else if pat = viz then [''viz*.yml'', ''viz*.yaml'']
      else if pat = config then [''simwrapper-config.yml'', ''simwrapper-config.yaml'']
      else [pat])"

definition glob_ref :: "string list \<Rightarrow> string \<Rightarrow> string list" where
  "glob_ref fl pat = filter (\<lambda>f. list_ex (\<lambda>p. wild p f) (spelled_out pat)) fl"

text \<open>
  The stand-in for the sort by \<open>naturalSort\<close>: a case-insensitive sort, which agrees
  with the natural order on the names of the reference host (their numbers have a
  single digit). \<open>fresh\<close> is the state of a page just loaded: an empty cache and no
  request made so far.
\<close>

definition nsort_ref :: "string list \<Rightarrow> string list" where
  "nsort_ref = sort_key toLowerCase"

definition fresh :: "cache \<times> world" where
  "fresh = ((\<lambda>s. Map.empty), [])"

definition local_fs :: HTTPFileSystem where
  "local_fs = newHTTPFileSystem local_config None"

definition guarded_fs :: HTTPFileSystem where
  "guarded_fs = newHTTPFileSystem local_config (Some (\<lambda>h. False))"

text \<open>
  Observations of an outcome: the error a call threw, if it threw, and the names
  \<open>(dirs, files)\<close> of the entry it returned, if it returned.
\<close>

fun thrownBy :: "thrown + 'a \<Rightarrow> thrown option" where
  "thrownBy (Inl err) = Some err"
| "thrownBy (Inr x) = None"

fun listed :: "thrown + DirectoryEntry \<Rightarrow> (string list \<times> string list) option" where
  "listed (Inl err) = None"
| "listed (Inr d) = Some (dirs d, files d)"

section \<open>Config discovery in the words of the specification\<close>

text \<open>
  What the specification says of config discovery, for a target folder
  \<open>/s1/.../sn\<close> given by its segments: walk every ancestor prefix from the root down
  to (but not including) the target itself, \<open>/\<close>, \<open>/s1/\<close>, ..., \<open>/s1/.../s(n-1)/\<close>; at
  each ancestor list its subdirectories and collect any subdirectory whose lower-cased
  name is a recognised config-folder name (a listing that fails contributes nothing);
  then list every candidate in that order, and let every match of a later candidate
  overwrite a same-named entry of an earlier one.
\<close>

fun prefixesFrom :: "string \<Rightarrow> string list \<Rightarrow> string list" where
  "prefixesFrom prefix [] = []"
| "prefixesFrom prefix (s # ss) = (prefix @ s @ ''/'') # prefixesFrom (prefix @ s @ ''/'') ss"

definition ancestorPrefixes :: "string list \<Rightarrow> string list" where
  "ancestorPrefixes segs = ''/'' # prefixesFrom ''/'' (butlast segs)"

text \<open>Listing the paths one after the other, each in the state the one before left.\<close>

fun listAll ::
  "(string \<Rightarrow> 's \<Rightarrow> (thrown + DirectoryEntry) \<times> 's) \<Rightarrow> string list \<Rightarrow> 's
     \<Rightarrow> (thrown + DirectoryEntry) list \<times> 's" where
  "listAll gd [] st = ([], st)"
| "listAll gd (p # ps) st =
     (fst (gd p st) # fst (listAll gd ps (snd (gd p st))), snd (listAll gd ps (snd (gd p st))))"

definition configFoldersAt :: "string \<Rightarrow> thrown + DirectoryEntry \<Rightarrow> string list" where
  "configFoldersAt prefix outcome =
     (case outcome of
        Inl err \<Rightarrow> []
      | Inr entry \<Rightarrow>
          map (\<lambda>dir. prefix @ dir) (filter (\<lambda>dir. toLowerCase dir \<in> set YAML_FOLDERS) (dirs entry)))"

definition configFoldersOf :: "string list \<Rightarrow> (thrown + DirectoryEntry) list \<Rightarrow> string list" where
  "configFoldersOf prefixes outcomes =
     concat (map (\<lambda>(prefix, outcome). configFoldersAt prefix outcome) (zip prefixes outcomes))"

text \<open>
  The mapping of one pattern, given the candidates with their file listings in order:
  a filename resolves under the last candidate in which it matches.
\<close>

definition lastMatch ::
  "(string list \<Rightarrow> string \<Rightarrow> string list) \<Rightarrow> string \<Rightarrow> (string \<times> string list) list
     \<Rightarrow> (string \<rightharpoonup> string)" where
  "lastMatch mm pat candidates f =
     (let matching = filter (\<lambda>(folder, fl). f \<in> set (mm fl pat)) candidates in
      if matching = [] then None else Some (resolved (fst (last matching)) f))"

text \<open>A path without two adjacent separators.\<close>

fun noDoubleSlash :: "string \<Rightarrow> bool" where
  "noDoubleSlash [] = True"
| "noDoubleSlash [c] = True"
| "noDoubleSlash (a # b # cs) =
     (\<not> (a = CHR ''/'' \<and> b = CHR ''/'') \<and> noDoubleSlash (b # cs))"

text \<open>
  A local folder with config folders at two levels: \<open>/simwrapper\<close> and
  \<open>/root/simwrapper\<close> above the project \<open>/root/project\<close>.
\<close>

definition layered_tree :: handle where
  "layered_tree =
     DirHandle ''picked''
       [DirHandle ''root''
          [DirHandle ''project''
             [FileHandle ''dashboard-1.yaml'', FileHandle ''notes.txt''],
           DirHandle ''SimWrapper''
             [FileHandle ''dashboard-1.yaml'', FileHandle ''dashboard-2.yaml'']],
        DirHandle ''simwrapper''
          [FileHandle ''dashboard-1.yaml'', FileHandle ''dashboard-2.yaml'',
           FileHandle ''dashboard-3.yaml'']]"

definition layered_fs :: HTTPFileSystem where
  "layered_fs = newHTTPFileSystem
     \<lparr>slug = ''layered'', baseURL = [], needPassword = False, handle = Some layered_tree,
      cfgIsGithub = False\<rparr> None"


section \<open>Names of a directory entry in the words of the specification\<close>

text \<open>
  The invariant of a listing: no directory name ends with the separator, and no name
  of a directory or a file holds one.
\<close>

definition plainNames :: "DirectoryEntry \<Rightarrow> bool" where
  "plainNames d =
     ((\<forall>n\<in>set (dirs d). \<not> endsWith n ''/'')
      \<and> (\<forall>n\<in>set (dirs d) \<union> set (files d). CHR ''/'' \<notin> set n))"

definition cachePlain :: "cache \<Rightarrow> bool" where
  "cachePlain c = (\<forall>rootId key d. c rootId key = Some d \<longrightarrow> plainNames d)"

text \<open>
  What each backend is given from outside. A folder handle: the names of the entries
  of every directory below it. GitHub: the names of the \<open>file\<close> and \<open>dir\<close> entries of
  an answer. The authenticated proxy: the \<open>href\<close> of every anchor of a page it is
  served. A generic HTTP server: the names the dialect chosen by \<open>buildListFromHtml\<close>
  reads from the lines of a page it is served (\<open>namesRead\<close>; none for the Node
  static-server dialect, which cuts every name down to its last segment, and none for a
  page of no known dialect).
\<close>

fun plainHandle :: "handle \<Rightarrow> bool" where
  "plainHandle (FileHandle n) = True"
| "plainHandle (DirHandle n kids) =
     (\<forall>k\<in>set kids. CHR ''/'' \<notin> set (handle_name k) \<and> plainHandle k)"

definition namesRead :: "string \<Rightarrow> string list" where
  "namesRead data =
     (if str_indexOf data ''SimpleWebServer'' > -1 then List.map_filter sws_name (split data nl)
      else if str_indexOf data ''<ul>'' > -1 then List.map_filter svn_name (split data nl)
      else if str_indexOf data (''<ul id='' @ dquote @ ''files'' @ dquote @ ''>'') > -1 then []
      else if str_indexOf data ''<table>'' > -1 then List.map_filter apache_name (split data nl)
      else if str_indexOf data (nl @ ''<a '') > -1 then List.map_filter nginx_name (split data nl)
      else [])"

text \<open>
  The proviso on the backend an instance dispatches to: a name it is given holds no
  separator (folder handle, GitHub), or none but as its last character, where it marks
  a directory (link targets of a page).
\<close>

definition suppliesPlainNames :: "env \<Rightarrow> HTTPFileSystem \<Rightarrow> bool" where
  "suppliesPlainNames e fs =
     (case fsHandle fs of
        Some root \<Rightarrow> plainHandle root
      | None \<Rightarrow>
          if isGithub fs then
            (\<forall>url json. fetch_listing e url = Inr (Some json) \<longrightarrow>
               (\<forall>entry\<in>set json. entry_type entry = ''file'' \<or> entry_type entry = ''dir''
                  \<longrightarrow> CHR ''/'' \<notin> set (entry_name entry)))
          else if needsAuth fs then
            (\<forall>url r. fetch e url = Inr r \<longrightarrow> ok r \<longrightarrow>
               (\<forall>link\<in>set (dom_links e (body r)). \<forall>h. fst link = Some h
                  \<longrightarrow> CHR ''/'' \<notin> set (butlast h)))
          else
            (\<forall>url r. fetch e url = Inr r \<longrightarrow> ok r \<longrightarrow>
               (\<forall>name\<in>set (namesRead (body r)). CHR ''/'' \<notin> set (butlast name))))"

text \<open>
  A session of the module: listings through \<open>getDirectory\<close> and calls of \<open>clearCache\<close>,
  one after the other on the shared cache; \<open>session\<close> is what the listings returned or
  threw, in order.
\<close>

datatype request = Listing HTTPFileSystem string | ClearCache HTTPFileSystem

fun session ::
  "env \<Rightarrow> (string list \<Rightarrow> string list) \<Rightarrow> request list \<Rightarrow> cache \<times> world
     \<Rightarrow> (thrown + DirectoryEntry) list" where
  "session e nsort [] st = []"
| "session e nsort (Listing fs scaryPath # requests) st =
     fst (getDirectory e nsort fs scaryPath st)
       # session e nsort requests (snd (getDirectory e nsort fs scaryPath st))"
| "session e nsort (ClearCache fs # requests) st =
     session e nsort requests (clearCache fs (fst st), snd st)"

text \<open>
  Reference hosts whose listings keep the proviso: a web server that serves the one
  Subversion-style page of \<open>/data/run/\<close>, a GitHub API that answers with the entries of
  a repository root, and an authenticated proxy whose page has three anchors.
\<close>

definition tidy_fetch :: "string \<Rightarrow> thrown + response" where
  "tidy_fetch url =
     (if url = ''http://host/data/run/'' then Inr (page (svn_page [''events.csv'', ''plots/'']))
      else Inr not_found)"

definition tidy_listing :: "string \<Rightarrow> thrown + gh_entry list option" where
  "tidy_listing url =
     (if url = ''https://api.github.com/repos/org/repo/contents/''
        then Inr (Some [\<lparr>entry_type = ''file'', entry_name = ''README.md''\<rparr>,
                        \<lparr>entry_type = ''dir'', entry_name = ''data''\<rparr>,
                        \<lparr>entry_type = ''symlink'', entry_name = ''latest''\<rparr>])
      else Inr None)"

definition tidy_env :: env where
  "tidy_env = host_env\<lparr>fetch := tidy_fetch, fetch_listing := tidy_listing,
     dom_links := (\<lambda>markup. [(Some ''../'', ''..''), (Some ''plots/'', ''plots/''),
                              (Some ''events.csv'', ''events.csv'')]),
     auth_reply := (''token'', ''user'')\<rparr>"

definition github_root :: HTTPFileSystem where
  "github_root = newHTTPFileSystem
     \<lparr>slug = ''gh'', baseURL = ''https://github.com'', needPassword = False, handle = None,
      cfgIsGithub = True\<rparr> None"

definition proxy_root :: HTTPFileSystem where
  "proxy_root = newHTTPFileSystem
     \<lparr>slug = ''proxy'', baseURL = ''http://host'', needPassword = True, handle = None,
      cfgIsGithub = False\<rparr> None"


section \<open>Verified properties\<close>

subsection \<open>Removal of \<open>..\<close> segments\<close>

lemma filter_from_above:
  "d < k \<Longrightarrow> filter_from k (\<lambda>part i. i \<noteq> d - 1 \<and> i \<noteq> d) xs = xs"
  by (induction xs arbitrary: k) auto

lemma filter_from_at:
  "filter_from d (\<lambda>part i. i \<noteq> d - 1 \<and> i \<noteq> d) xs = drop 1 xs"
  by (cases xs) (auto simp: filter_from_above)

lemma filter_from_pair:
  "k < d \<Longrightarrow> filter_from k (\<lambda>part i. i \<noteq> d - 1 \<and> i \<noteq> d) xs
     = take (nat (d - 1 - k)) xs @ drop (nat (d - k) + 1) xs"
proof (induction xs arbitrary: k)
  case Nil
  then show ?case by simp
next
  case (Cons x xs)
  show ?case
  proof (cases "k = d - 1")
    case True
    then show ?thesis using filter_from_at [of d xs] by (simp add: drop_Suc)
  next
    case False
    with Cons.prems have lt: "k + 1 < d" by simp
    then have a: "nat (d - 1 - k) = Suc (nat (d - 1 - (k + 1)))" by simp
    from lt have b: "nat (d - k) = Suc (nat (d - (k + 1)))" by simp
    from lt Cons.IH [OF lt] show ?thesis by (simp only: a b filter_from.simps) simp
  qed
qed

lemma eatDots_step:
  assumes "0 < arr_indexOf parts ''..''"
  shows "eatDots parts =
    eatDots (take (nat (arr_indexOf parts ''..'') - 1) parts
             @ drop (nat (arr_indexOf parts ''..'') + 1) parts)"
proof -
  let ?d = "arr_indexOf parts ''..''"
  have "filter_idx (\<lambda>part i. i \<noteq> ?d - 1 \<and> i \<noteq> ?d) parts
      = take (nat (?d - 1 - 0)) parts @ drop (nat (?d - 0) + 1) parts"
    unfolding filter_idx_def using assms by (intro filter_from_pair)
  moreover have "nat (?d - 1) = nat ?d - 1" by simp
  ultimately show ?thesis using assms by (subst eatDots.simps) (simp add: Let_def)
qed

lemma eatDots_stop: "arr_indexOf parts ''..'' \<le> 0 \<Longrightarrow> eatDots parts = parts"
  by (subst eatDots.simps) (simp add: Let_def)

lemma eatDots_result: "arr_indexOf (eatDots parts) ''..'' \<le> 0"
proof (induction parts rule: eatDots.induct)
  case (1 parts)
  show ?case
  proof (cases "arr_indexOf parts ''..'' \<le> 0")
    case True
    then show ?thesis by (simp add: eatDots_stop)
  next
    case False
    with "1.IH" [OF refl False] show ?thesis
      by (subst eatDots.simps) (simp add: Let_def)
  qed
qed

lemma arr_indexOf_nonneg_iff: "0 \<le> arr_indexOf xs x \<longleftrightarrow> x \<in> set xs"
  by (induction xs) (auto simp: Let_def)

lemma arr_indexOf_le_0: "arr_indexOf xs x \<le> 0 \<longleftrightarrow> x \<notin> set xs \<or> take 1 xs = [x]"
proof (cases xs)
  case Nil
  then show ?thesis by simp
next
  case (Cons y ys)
  have "0 \<le> arr_indexOf ys x \<longleftrightarrow> x \<in> set ys" by (rule arr_indexOf_nonneg_iff)
  then show ?thesis using Cons by (auto simp: Let_def)
qed

text \<open>
  C4, as stated, fails: "removes each \<open>..\<close> segment together with the segment
  immediately preceding it, repeating until no removable \<open>..\<close> remains". The scan
  looks at the first \<open>..\<close> only and stops as soon as that one is the leading segment,
  so a later \<open>..\<close> that does have a segment before it stays: the segments
  \<open>["..", "a", "..", "b"]\<close> come back unchanged, with \<open>..\<close> at index 2 behind \<open>a\<close>.
\<close>

theorem eatDots_behind_leading_dotdot:
  "eatDots [''..'', ''a'', ''..'', ''b''] = [''..'', ''a'', ''..'', ''b'']
   \<and> ''..'' \<in> set (tl (eatDots [''..'', ''a'', ''..'', ''b'']))"
  by (simp add: eatDots.simps)

text \<open>
  C4, amended: the segment-cleaning step removes the first \<open>..\<close> segment together
  with the segment immediately preceding it and repeats, until the list holds no
  \<open>..\<close> or begins with \<open>..\<close>; a list that already holds no \<open>..\<close> or begins with
  \<open>..\<close> is returned as it is. So \<open>["a","b","..","c"]\<close> reduces to \<open>["a","c"]\<close>, and
  \<open>["..","a"]\<close> is left in place with its \<open>..\<close>.
\<close>

theorem eatDots_removal:
  "(0 < arr_indexOf parts ''..'' \<longrightarrow>
      eatDots parts =
        eatDots (take (nat (arr_indexOf parts ''..'') - 1) parts
                 @ drop (nat (arr_indexOf parts ''..'') + 1) parts))
   \<and> (''..'' \<notin> set parts \<or> take 1 parts = [''..''] \<longrightarrow> eatDots parts = parts)
   \<and> (''..'' \<notin> set (eatDots parts) \<or> take 1 (eatDots parts) = [''..''])
   \<and> eatDots [''a'', ''b'', ''..'', ''c''] = [''a'', ''c'']
   \<and> eatDots [''..'', ''a''] = [''..'', ''a'']"
proof -
  have "eatDots [''a'', ''b'', ''..'', ''c''] = [''a'', ''c'']"
    by (simp add: eatDots.simps filter_idx_def)
  moreover have "eatDots [''..'', ''a''] = [''..'', ''a'']"
    by (simp add: eatDots.simps)
  moreover have "''..'' \<notin> set (eatDots parts) \<or> take 1 (eatDots parts) = [''..'']"
    using eatDots_result [of parts] by (simp only: arr_indexOf_le_0)
  moreover have "''..'' \<notin> set parts \<or> take 1 parts = [''..''] \<longrightarrow> eatDots parts = parts"
    using eatDots_stop [of parts] by (simp only: arr_indexOf_le_0) blast
  ultimately show ?thesis using eatDots_step [of parts] by blast
qed

theorem eatDots_removal_witness:
  "0 < arr_indexOf [''x'', ''a'', ''b'', ''..'', ''c''] ''..''
   \<and> eatDots [''x'', ''a'', ''b'', ''..'', ''c''] = eatDots [''x'', ''a'', ''c'']
   \<and> ''..'' \<notin> set [''x'', ''a'', ''c'']
   \<and> eatDots [''x'', ''a'', ''c''] = [''x'', ''a'', ''c'']"
  using eatDots_removal [of "[''x'', ''a'', ''b'', ''..'', ''c'']"]
        eatDots_removal [of "[''x'', ''a'', ''c'']"]
  by simp

subsection \<open>Decompression pipeline\<close>

lemma gUnzip_not_gzip: "\<not> isGzip b \<Longrightarrow> gUnzip inflate b = Some (Inr b)"
  by (subst gUnzip.simps) simp

lemma gUnzip_layer:
  "isGzip b \<Longrightarrow> inflate b = Inr x \<Longrightarrow> gUnzip inflate b = gUnzip inflate x"
  by (subst gUnzip.simps) simp

lemma gUnzip_layers:
  assumes codec: "\<forall>x. isGzip (gz x) \<and> inflate (gz x) = Inr x" and plain: "\<not> isGzip p"
  shows "gUnzip inflate ((gz ^^ n) p) = Some (Inr p)"
proof (induction n)
  case 0
  show ?case using plain by (simp add: gUnzip_not_gzip)
next
  case (Suc n)
  have "gUnzip inflate (gz ((gz ^^ n) p)) = gUnzip inflate ((gz ^^ n) p)"
    using codec by (intro gUnzip_layer) auto
  with Suc show ?case by simp
qed

text \<open>
  Whatever the codec, a buffer the pipeline returns does not begin with the magic
  number: the pipeline cannot tell a plaintext that begins with \<open>0x1F 0x8B\<close> from one
  more gzip layer.
\<close>

lemma gUnzip_result_cases:
  "gUnzip inflate b = Some y \<Longrightarrow> (case y of Inl e \<Rightarrow> True | Inr r \<Rightarrow> \<not> isGzip r)"
proof (induction rule: gUnzip.raw_induct [rotated 1, consumes 1, case_names unfold])
  case (unfold g inflate buffer y)
  note IH = unfold(1) and step = unfold(2)
  show ?case
  proof (cases "isGzip buffer")
    case False
    with step show ?thesis by auto
  next
    case gz: True
    show ?thesis
    proof (cases "inflate buffer")
      case (Inl err)
      with gz step show ?thesis by auto
    next
      case (Inr x)
      with gz step have a: "g inflate x = Some y" by simp
      from IH [OF a] show ?thesis .
    qed
  qed
qed

lemma gUnzip_result_not_gzip: "gUnzip inflate b = Some (Inr r) \<Longrightarrow> \<not> isGzip r"
  using gUnzip_result_cases [of inflate b "Inr r"] by simp

text \<open>
  C5, as stated, fails: "for a buffer produced by gzipping a plaintext once or twice (or
  more), a single pipeline call fully unwraps every gzip layer and returns the original
  plaintext". The four-byte plaintext \<open>1F 8B 00 00\<close>, gzipped once, inflates back to
  itself; the pipeline then finds the magic number again, inflates the plaintext as if
  it were a further layer, and the call throws instead of returning the plaintext.
\<close>

theorem gUnzip_plaintext_with_magic:
  "unframe (frame [0x1f, 0x8b, 0x00, 0x00]) = Inr [0x1f, 0x8b, 0x00, 0x00]
   \<and> gUnzip unframe (frame [0x1f, 0x8b, 0x00, 0x00])
       = Some (Inl (JSString ''unknown compression method''))"
  by (simp add: gUnzip.simps isGzip_def frame_def unframe_def)

text \<open>
  C5, amended: for every byte buffer \<open>b\<close>, \<open>gUnzip\<close> returns \<open>b\<close> unchanged when its
  first two bytes are not \<open>0x1F 0x8B\<close>; and for a buffer produced by gzipping, any number
  of times, a plaintext that does not itself begin with \<open>0x1F 0x8B\<close>, a single
  pipeline call returns (it does not run forever or throw) the original plaintext.
  \<open>gz\<close> and \<open>inflate\<close> are any codec whose compressed buffers begin with the magic
  number and inflate to what was compressed.
\<close>

theorem gUnzip_unwraps:
  "(\<not> isGzip b \<longrightarrow> gUnzip inflate b = Some (Inr b))
   \<and> ((\<forall>x. isGzip (gz x) \<and> inflate (gz x) = Inr x) \<and> \<not> isGzip p
        \<longrightarrow> gUnzip inflate ((gz ^^ n) p) = Some (Inr p))"
  using gUnzip_not_gzip [of b inflate] gUnzip_layers [of gz inflate p n] by blast

theorem gUnzip_unwraps_witness:
  "\<not> isGzip [0x41, 0x42]
   \<and> gUnzip unframe [0x41, 0x42] = Some (Inr [0x41, 0x42])
   \<and> (\<forall>x. isGzip (frame x) \<and> unframe (frame x) = Inr x)
   \<and> gUnzip unframe (frame (frame [0x41, 0x42])) = Some (Inr [0x41, 0x42])"
  using gUnzip_unwraps [of "[0x41, 0x42]" unframe frame "[0x41, 0x42]" "Suc (Suc 0)"]
  by (simp add: isGzip_def frame_def unframe_def)

subsection \<open>Permission gate of the local-handle adapter\<close>

text \<open>
  C10: if read permission on the folder handle is not already granted and the
  interactive grant (the store's answer) is a denial, \<open>getDirectoryFromHandle\<close>
  returns, rather than throws, the empty entry: no files, no dirs, no handles. The
  same empty entry is returned when no folder handle is configured.
\<close>

theorem getDirectoryFromHandle_denied_is_empty:
  "(fsHandle fs = Some h \<and> queryPermission e h \<noteq> ''granted'' \<and> store fs = Some decide \<and> \<not> decide h
      \<longrightarrow> \<not> getChromePermission e fs (fsHandle fs)
          \<and> getDirectoryFromHandle e fs p = Inr \<lparr>files = [], dirs = [], handles = Map.empty, html = None\<rparr>)
   \<and> (fsHandle fs = None
      \<longrightarrow> getDirectoryFromHandle e fs p = Inr \<lparr>files = [], dirs = [], handles = Map.empty, html = None\<rparr>)"
  by (simp add: getDirectoryFromHandle_def getChromePermission_def emptyEntry_def)

theorem getDirectoryFromHandle_denied_is_empty_witness:
  "fsHandle guarded_fs = Some local_tree
   \<and> queryPermission host_env local_tree \<noteq> ''granted''
   \<and> getDirectoryFromHandle host_env guarded_fs ''/root/project''
       = Inr \<lparr>files = [], dirs = [], handles = Map.empty, html = None\<rparr>
   \<and> getDirectoryFromHandle host_env web_root ''/root/project''
       = Inr \<lparr>files = [], dirs = [], handles = Map.empty, html = None\<rparr>"
  using getDirectoryFromHandle_denied_is_empty
          [of guarded_fs local_tree host_env "\<lambda>h. False" "''/root/project''"]
        getDirectoryFromHandle_denied_is_empty
          [of web_root local_tree host_env "\<lambda>h. False" "''/root/project''"]
  by (simp add: guarded_fs_def web_root_def newHTTPFileSystem_def local_config_def host_env_def)

subsection \<open>Path sanitising\<close>

lemma stripScary_unchanged:
  "\<not> startsWith (toLowerCase s) ''0-9a-za-z_-/:'' \<Longrightarrow> stripScary s = s"
proof (rule ccontr)
  assume no: "\<not> startsWith (toLowerCase s) ''0-9a-za-z_-/:''" and changed: "stripScary s \<noteq> s"
  from changed have lit: "toLowerCase (take 12 s) = ''0-9a-za-z_-/''"
    and colon: "take 1 (drop 12 s) = '':''"
    by (auto simp: stripScary_def startsWith_def split: if_splits)
  have low: "toLower (CHR '':'') = CHR '':''" by code_simp
  have "take 13 s = take 12 s @ take 1 (drop 12 s)"
    using take_add [of 12 1 s] by simp
  then have "toLowerCase (take 13 s) = ''0-9a-za-z_-/:''"
    using lit colon low by (simp add: toLowerCase_def)
  moreover have "length ''0-9a-za-z_-/:'' = 13" by simp
  ultimately have "startsWith (toLowerCase s) ''0-9a-za-z_-/:''"
    by (simp only: startsWith_def toLowerCase_def take_map)
  with no show False by simp
qed

text \<open>
  C3 says that \<open>cleanURL\<close> strips the characters outside \<open>[0-9a-zA-Z_\-/:+]\<close> from
  the start of the path. The code does not: its pattern lacks the brackets of a
  character class, so it removes only the literal text \<open>0-9a-zA-Z_-/\<close> followed by
  colons. The path \<open>~~data/file.csv\<close> reaches the \<open>URL\<close> constructor, and comes
  back, with its two leading characters from outside the set; and the path
  \<open>0-9a-zA-Z_-/::data\<close>, all of whose characters are inside the set, loses its first
  fourteen characters. (The two passes of \<open>replaceAll('//', '/')\<close> also leave a double
  separator where five or more stood.)
\<close>

theorem cleanURL_keeps_leading_characters:
  "cleanPath web_root ''~~data/file.csv'' = ''http://host/~~data/file.csv''
   \<and> cleanURL host_env web_root ''~~data/file.csv'' = Inr ''http://host/~~data/file.csv''
   \<and> cleanPath web_root ''0-9a-zA-Z_-/::data'' = ''http://host/data''
   \<and> cleanPath web_root ''data/////run'' = ''http://host/data//run''"
  by code_simp

subsection \<open>GitHub binary classification\<close>

lemma BINARIES_test_iff:
  "BINARIES_test s \<longleftrightarrow> (\<exists>ext\<in>set BINARIES. endsWith s (''.'' @ ext))"
  by (simp add: BINARIES_test_def list_ex_iff)

lemma gh_decode_base64:
  assumes "encoding json = Some ''base64''"
    and "atob e (case content json of None \<Rightarrow> ''undefined'' | Some c \<Rightarrow> c) = Some raw"
  shows "gh_decode e scaryPath json =
           Inr (if \<exists>ext\<in>set BINARIES. endsWith (toLowerCase scaryPath) (''.'' @ ext)
                then Bytes raw else Text (utf8_decode e raw))"
  using assms by (simp add: gh_decode_def BINARIES_test_iff)

lemma endsWith_last: "endsWith s p \<Longrightarrow> p \<noteq> [] \<Longrightarrow> last s = last p"
proof -
  assume e: "endsWith s p" and ne: "p \<noteq> []"
  then have "s = take (length s - length p) s @ p"
    by (metis append_take_drop_id endsWith_def)
  then show ?thesis using ne by (metis last_appendR)
qed

lemma png_is_binary: "endsWith s ''.png'' \<Longrightarrow> \<exists>ext\<in>set BINARIES. endsWith s (''.'' @ ext)"
  by (simp add: BINARIES_def)

lemma csv_is_text: "endsWith s ''.csv'' \<Longrightarrow> \<not> (\<exists>ext\<in>set BINARIES. endsWith s (''.'' @ ext))"
proof
  assume csv: "endsWith s ''.csv''" and "\<exists>ext\<in>set BINARIES. endsWith s (''.'' @ ext)"
  then obtain ext where ext: "ext \<in> set BINARIES" and e: "endsWith s (''.'' @ ext)" by blast
  from csv have "last s = CHR ''v''" using endsWith_last [of s "''.csv''"] by simp
  moreover from ext have "ext \<noteq> []" by (auto simp: BINARIES_def)
  then have "last s = last ext" using endsWith_last [OF e] by simp
  ultimately show False using ext by (auto simp: BINARIES_def)
qed

lemma getFileFromGitHub_inline:
  assumes "2 \<le> length (github_bits scaryPath)"
    and "fetch_json e (''https://api.github.com/repos/'' @ github_bits scaryPath ! 0 @ ''/''
       @ github_bits scaryPath ! 1 @ ''/contents/'' @ join (drop 2 (github_bits scaryPath)) ''/'') = Inr json"
    and "content json = Some c" and "c \<noteq> []"
  shows "fst (getFileFromGitHub e scaryPath w) = map_sum id Some (gh_decode e scaryPath json)"
  using assms by (simp add: getFileFromGitHub_def Let_def)

lemma getFileFromGitHub_blob:
  assumes "2 \<le> length (github_bits scaryPath)"
    and "fetch_json e (''https://api.github.com/repos/'' @ github_bits scaryPath ! 0 @ ''/''
       @ github_bits scaryPath ! 1 @ ''/contents/'' @ join (drop 2 (github_bits scaryPath)) ''/'') = Inr json"
    and "content json = None \<or> content json = Some []"
    and "fetch_json e (''https://api.github.com/repos/'' @ github_bits scaryPath ! 0 @ ''/''
       @ github_bits scaryPath ! 1 @ ''/git/blobs/'' @ (case sha json of None \<Rightarrow> ''undefined'' | Some s \<Rightarrow> s)) = Inr json2"
  shows "fst (getFileFromGitHub e scaryPath w) = map_sum id Some (gh_decode e scaryPath json2)"
  using assms by (auto simp add: getFileFromGitHub_def Let_def)

text \<open>
  C6: when the GitHub adapter reads a file (a path of at least two segments) and the
  JSON it decodes, the answer of the content API or, when that carries no content, of
  the blob API, declares the encoding \<open>base64\<close>, the content is base64-decoded to raw
  bytes and classified by the lower-cased requested path: if it ends with a dot and one
  of \<open>avro, dbf, gpkg, gz, h5, jpg, jpeg, omx, png, shp, shx, sqlite, zip, zst\<close> the raw
  bytes are the result, otherwise their UTF-8 decoding as text. So \<open>.png\<close> (in any
  case) yields bytes and \<open>.csv\<close> yields text.
\<close>

theorem github_base64_classification:
  assumes bits: "2 \<le> length (github_bits scaryPath)"
    and first: "fetch_json e (''https://api.github.com/repos/'' @ github_bits scaryPath ! 0 @ ''/''
       @ github_bits scaryPath ! 1 @ ''/contents/'' @ join (drop 2 (github_bits scaryPath)) ''/'') = Inr json0"
    and final: "(content json0 = Some c0 \<and> c0 \<noteq> [] \<and> json = json0)
       \<or> ((content json0 = None \<or> content json0 = Some [])
           \<and> fetch_json e (''https://api.github.com/repos/'' @ github_bits scaryPath ! 0 @ ''/''
                @ github_bits scaryPath ! 1 @ ''/git/blobs/''
                @ (case sha json0 of None \<Rightarrow> ''undefined'' | Some s \<Rightarrow> s)) = Inr json)"
    and base64: "encoding json = Some ''base64''"
    and decoded: "atob e (case content json of None \<Rightarrow> ''undefined'' | Some c \<Rightarrow> c) = Some raw"
  shows "fst (getFileFromGitHub e scaryPath w) =
           Inr (Some (if \<exists>ext\<in>set BINARIES. endsWith (toLowerCase scaryPath) (''.'' @ ext)
                      then Bytes raw else Text (utf8_decode e raw)))
         \<and> (endsWith (toLowerCase scaryPath) ''.png'' \<longrightarrow>
               fst (getFileFromGitHub e scaryPath w) = Inr (Some (Bytes raw)))
         \<and> (endsWith (toLowerCase scaryPath) ''.csv'' \<longrightarrow>
               fst (getFileFromGitHub e scaryPath w) = Inr (Some (Text (utf8_decode e raw))))"
proof -
  have dec: "gh_decode e scaryPath json =
           Inr (if \<exists>ext\<in>set BINARIES. endsWith (toLowerCase scaryPath) (''.'' @ ext)
                then Bytes raw else Text (utf8_decode e raw))"
    using base64 decoded by (rule gh_decode_base64)
  have "fst (getFileFromGitHub e scaryPath w) = map_sum id Some (gh_decode e scaryPath json)"
    using final
  proof
    assume "content json0 = Some c0 \<and> c0 \<noteq> [] \<and> json = json0"
    then show ?thesis using getFileFromGitHub_inline [OF bits first, of c0 w] by simp
  next
    assume "(content json0 = None \<or> content json0 = Some [])
       \<and> fetch_json e (''https://api.github.com/repos/'' @ github_bits scaryPath ! 0 @ ''/''
            @ github_bits scaryPath ! 1 @ ''/git/blobs/''
            @ (case sha json0 of None \<Rightarrow> ''undefined'' | Some s \<Rightarrow> s)) = Inr json"
    then show ?thesis using getFileFromGitHub_blob [OF bits first, of json w] by simp
  qed
  with dec have main: "fst (getFileFromGitHub e scaryPath w) =
           Inr (Some (if \<exists>ext\<in>set BINARIES. endsWith (toLowerCase scaryPath) (''.'' @ ext)
                      then Bytes raw else Text (utf8_decode e raw)))"
    by simp
  show ?thesis
    using main png_is_binary [of "toLowerCase scaryPath"] csv_is_text [of "toLowerCase scaryPath"]
    by simp
qed

theorem github_base64_classification_witness:
  "fst (getFileFromGitHub host_env ''/org/repo/img/Logo.PNG'' []) = Inr (Some (Bytes [0x68, 0x69]))
   \<and> fst (getFileFromGitHub host_env ''/org/repo/data/trips.csv'' []) = Inr (Some (Text ''hi''))"
proof -
  let ?json = "\<lparr>content = Some ''aGk='', encoding = Some ''base64'', sha = Some ''1f''\<rparr>"
  let ?json' = "\<lparr>content = Some ''aGk='', encoding = Some ''base64'', sha = Some ''2e''\<rparr>"
  have png: "endsWith (toLowerCase ''/org/repo/img/Logo.PNG'') ''.png''" by code_simp
  have csv: "endsWith (toLowerCase ''/org/repo/data/trips.csv'') ''.csv''" by code_simp
  have a: "fst (getFileFromGitHub host_env ''/org/repo/img/Logo.PNG'' []) = Inr (Some (Bytes [0x68, 0x69]))"
  proof -
    have 1: "2 \<le> length (github_bits ''/org/repo/img/Logo.PNG'')" by code_simp
    have 2: "fetch_json host_env (''https://api.github.com/repos/''
                @ github_bits ''/org/repo/img/Logo.PNG'' ! 0 @ ''/''
                @ github_bits ''/org/repo/img/Logo.PNG'' ! 1 @ ''/contents/''
                @ join (drop 2 (github_bits ''/org/repo/img/Logo.PNG'')) ''/'') = Inr ?json"
      by code_simp
    have 3: "(content ?json = Some ''aGk='' \<and> ''aGk='' \<noteq> [] \<and> ?json = ?json)
       \<or> ((content ?json = None \<or> content ?json = Some [])
           \<and> fetch_json host_env (''https://api.github.com/repos/''
                @ github_bits ''/org/repo/img/Logo.PNG'' ! 0 @ ''/''
                @ github_bits ''/org/repo/img/Logo.PNG'' ! 1 @ ''/git/blobs/''
                @ (case sha ?json of None \<Rightarrow> ''undefined'' | Some s \<Rightarrow> s)) = Inr ?json)"
      by simp
    have 4: "encoding ?json = Some ''base64''" by simp
    have 5: "atob host_env (case content ?json of None \<Rightarrow> ''undefined'' | Some c \<Rightarrow> c) = Some [0x68, 0x69]"
      by (simp add: host_env_def host_atob_def)
    from github_base64_classification [OF 1 2 3 4 5, of "[]"] png show ?thesis by blast
  qed
  have b: "fst (getFileFromGitHub host_env ''/org/repo/data/trips.csv'' []) = Inr (Some (Text ''hi''))"
  proof -
    have 1: "2 \<le> length (github_bits ''/org/repo/data/trips.csv'')" by code_simp
    have 2: "fetch_json host_env (''https://api.github.com/repos/''
                @ github_bits ''/org/repo/data/trips.csv'' ! 0 @ ''/''
                @ github_bits ''/org/repo/data/trips.csv'' ! 1 @ ''/contents/''
                @ join (drop 2 (github_bits ''/org/repo/data/trips.csv'')) ''/'') = Inr ?json'"
      by code_simp
    have 3: "(content ?json' = Some ''aGk='' \<and> ''aGk='' \<noteq> [] \<and> ?json' = ?json')
       \<or> ((content ?json' = None \<or> content ?json' = Some [])
           \<and> fetch_json host_env (''https://api.github.com/repos/''
                @ github_bits ''/org/repo/data/trips.csv'' ! 0 @ ''/''
                @ github_bits ''/org/repo/data/trips.csv'' ! 1 @ ''/git/blobs/''
                @ (case sha ?json' of None \<Rightarrow> ''undefined'' | Some s \<Rightarrow> s)) = Inr ?json')"
      by simp
    have 4: "encoding ?json' = Some ''base64''" by simp
    have 5: "atob host_env (case content ?json' of None \<Rightarrow> ''undefined'' | Some c \<Rightarrow> c) = Some [0x68, 0x69]"
      by (simp add: host_env_def host_atob_def)
    have 6: "utf8_decode host_env [0x68, 0x69] = ''hi''" by code_simp
    from github_base64_classification [OF 1 2 3 4 5, of "[]"] csv
    have "fst (getFileFromGitHub host_env ''/org/repo/data/trips.csv'' [])
            = Inr (Some (Text (utf8_decode host_env [0x68, 0x69])))"
      by blast
    with 6 show ?thesis by simp
  qed
  from a b show ?thesis by simp
qed

subsection \<open>The directory cache\<close>

lemma str_indexOf_Cons_neg:
  "str_indexOf (c # cs) pat < 0 \<Longrightarrow> \<not> startsWith (c # cs) pat \<and> str_indexOf cs pat < 0"
  by (auto simp: Let_def split: if_splits)

lemma replaceAll_absent:
  "pat \<noteq> [] \<Longrightarrow> str_indexOf s pat < 0 \<Longrightarrow> replaceAll s pat rep = s"
proof (induction s)
  case Nil
  then show ?case by simp
next
  case (Cons c cs)
  from str_indexOf_Cons_neg [OF Cons.prems(2)] Cons.IH [OF Cons.prems(1)] Cons.prems(1)
  show ?case by simp
qed

lemma storeKey_is_lookupKey:
  "str_indexOf (lookupKey p) ''/./'' < 0 \<Longrightarrow> storeKey p = lookupKey p"
  by (simp add: storeKey_def replaceAll_absent)

lemma getDirectoryWith_hit:
  "fst st rootId (lookupKey p) = Some d \<Longrightarrow> getDirectoryWith nsort backend rootId p st = (Inr d, st)"
  by (simp add: getDirectoryWith_def)

lemma getDirectoryWith_miss_ok:
  assumes "fst st rootId (lookupKey p) = None" and "backend (storeKey p) (snd st) = (Inr d, w')"
  shows "getDirectoryWith nsort backend rootId p st =
           (Inr (d\<lparr>dirs := nsort (dirs d), files := nsort (files d)\<rparr>),
            (fst st)(rootId := (fst st rootId)(storeKey p \<mapsto> d\<lparr>dirs := nsort (dirs d), files := nsort (files d)\<rparr>)),
            w')"
  using assms by (simp add: getDirectoryWith_def Let_def)

lemma getDirectoryWith_miss_error:
  assumes "fst st rootId (lookupKey p) = None" and "backend (storeKey p) (snd st) = (Inl err, w')"
  shows "getDirectoryWith nsort backend rootId p st = (Inl (JSError (toStr err)), fst st, w')"
  using assms by (simp add: getDirectoryWith_def)

text \<open>
  Where the key the cache is read with is the key it is written with, that is when
  the path with its trailing separator holds no \<open>/./\<close>, the second of two calls is
  served from the cache: the same entry, and no state change at all, so no request.
\<close>

lemma getDirectoryWith_second_call_cached:
  assumes first: "getDirectoryWith nsort backend rootId p st = (Inr d, st')"
    and same_key: "storeKey p = lookupKey p"
  shows "getDirectoryWith nsort backend rootId p st' = (Inr d, st')"
proof (cases "fst st rootId (lookupKey p)")
  case (Some cached)
  with first have "d = cached" "st' = st" by (simp_all add: getDirectoryWith_def)
  with Some show ?thesis by (simp add: getDirectoryWith_hit)
next
  case None
  obtain r w' where b: "backend (storeKey p) (snd st) = (r, w')" by (cases "backend (storeKey p) (snd st)")
  show ?thesis
  proof (cases r)
    case (Inl err)
    with None b first show ?thesis by (simp add: getDirectoryWith_def)
  next
    case (Inr listed)
    with None b first same_key have "fst st' rootId (lookupKey p) = Some d"
      by (auto simp: getDirectoryWith_def Let_def)
    then show ?thesis by (rule getDirectoryWith_hit)
  qed
qed

text \<open>
  C1 says that for every path the second of two \<open>getDirectory\<close> calls is served from
  the cache without a backend fetch, under a key that has its \<open>/./\<close> segments collapsed
  and ends with a single separator. The code reads the cache before it collapses
  \<open>/./\<close> and writes it after: for \<open>/data/./run\<close> it looks up \<open>/data/./run/\<close> and stores
  under \<open>/data/run/\<close>, so the second call misses and requests the listing again. The
  key of \<open>/data///\<close> ends with two separators, and that of \<open>/a/././b\<close> keeps a \<open>/./\<close>.
\<close>

theorem getDirectory_dot_segment_refetch:
  "lookupKey ''/data/./run'' = ''/data/./run/''
   \<and> storeKey ''/data/./run'' = ''/data/run/''
   \<and> listed (fst (getDirectory host_env nsort_ref web_root ''/data/./run'' fresh))
       = Some ([''plots''], [''events.csv''])
   \<and> snd (snd (getDirectory host_env nsort_ref web_root ''/data/./run'' fresh))
       = [''http://host/data/run/'']
   \<and> snd (snd (getDirectory host_env nsort_ref web_root ''/data/./run''
                 (snd (getDirectory host_env nsort_ref web_root ''/data/./run'' fresh))))
       = [''http://host/data/run/'', ''http://host/data/run/'']
   \<and> storeKey ''/data///'' = ''/data//''
   \<and> storeKey ''/a/././b'' = ''/a/./b/''"
  by code_simp

lemma getDirectory_plain_path_cached:
  "snd (snd (getDirectory host_env nsort_ref web_root ''/data/run''
                 (snd (getDirectory host_env nsort_ref web_root ''/data/run'' fresh))))
       = [''http://host/data/run/'']"
  by code_simp

text \<open>
  C2, as stated, fails: "the call throws a single wrapped error that reports the
  original path \<open>p\<close> and the underlying cause". The wrapped error is \<open>Error('' + e)\<close>:
  it carries the text of the cause and nothing else. Listing \<open>/root/nope/run\<close> in a
  local folder without \<open>nope\<close> throws \<open>Error: Could not find folder "nope"\<close>, in which
  the path does not occur.
\<close>

theorem getDirectory_error_without_path:
  "thrownBy (fst (getDirectory host_env nsort_ref local_fs ''/root/nope/run'' fresh))
     = Some (JSError (''Error: Could not find folder '' @ dquote @ ''nope'' @ dquote))
   \<and> \<not> includes_str (''Error: Could not find folder '' @ dquote @ ''nope'' @ dquote) ''/root/nope/run''"
  by code_simp

text \<open>
  C2, amended: if the backend adapter throws \<open>e\<close> during \<open>getDirectory(p)\<close> (the path
  is not in the cache, so the adapter is called), the call throws a single wrapped
  error, \<open>Error\<close> with the message \<open>'' + e\<close>, the text of the underlying cause, and the
  cache is left exactly as it was: no entry is written.
\<close>

theorem getDirectory_adapter_failure:
  assumes "fst st (urlId fs) (lookupKey p) = None"
    and "adapter e fs (storeKey p) (snd st) = (Inl err, w')"
  shows "getDirectory e nsort fs p st = (Inl (JSError (toStr err)), fst st, w')"
  using assms by (simp add: getDirectory_def getDirectoryWith_miss_error)

theorem getDirectory_adapter_failure_witness:
  "getDirectory host_env nsort_ref local_fs ''/root/nope/run'' fresh
     = (Inl (JSError (toStr (JSError (''Could not find folder '' @ dquote @ ''nope'' @ dquote)))),
        fst fresh, [])"
proof -
  have 1: "fst fresh (urlId local_fs) (lookupKey ''/root/nope/run'') = None"
    by (simp add: fresh_def)
  have "thrownBy (fst (adapter host_env local_fs (storeKey ''/root/nope/run'') (snd fresh)))
          = Some (JSError (''Could not find folder '' @ dquote @ ''nope'' @ dquote))
        \<and> snd (adapter host_env local_fs (storeKey ''/root/nope/run'') (snd fresh)) = []"
    by code_simp
  then have 2: "adapter host_env local_fs (storeKey ''/root/nope/run'') (snd fresh)
             = (Inl (JSError (''Could not find folder '' @ dquote @ ''nope'' @ dquote)), [])"
    by (cases "adapter host_env local_fs (storeKey ''/root/nope/run'') (snd fresh)";
        cases "fst (adapter host_env local_fs (storeKey ''/root/nope/run'') (snd fresh))") auto
  from getDirectory_adapter_failure [OF 1 2] show ?thesis .
qed

subsection \<open>Config discovery\<close>

lemma recordMatches_snoc:
  "recordMatches cf m (ms @ [x]) = (recordMatches cf m ms)(x \<mapsto> resolved cf x)"
  by (simp add: recordMatches_def)

lemma recordMatches_in:
  "f \<in> set ms \<Longrightarrow> recordMatches cf m ms f = Some (resolved cf f)"
proof (induction ms rule: rev_induct)
  case Nil
  then show ?case by simp
next
  case (snoc x xs)
  then show ?case by (cases "f = x") (auto simp: recordMatches_snoc)
qed

lemma recordMatches_out:
  "f \<notin> set ms \<Longrightarrow> recordMatches cf m ms f = m f"
proof (induction ms rule: rev_induct)
  case Nil
  then show ?case by (simp add: recordMatches_def)
next
  case (snoc x xs)
  then show ?case by (auto simp: recordMatches_snoc)
qed

lemma collectYamls_snoc:
  "collectYamls gd mm (xs @ [x]) y st =
     (case collectYamls gd mm xs y st of
        (Inl err, s1) \<Rightarrow> (Inl err, s1)
      | (Inr earlier, s1) \<Rightarrow>
          (case gd x s1 of
             (Inl err, s2) \<Rightarrow> (Inl err, s2)
           | (Inr entry, s2) \<Rightarrow> (Inr (recordFolder mm x (files entry) earlier), s2)))"
proof (induction xs arbitrary: y st)
  case Nil
  show ?case by (simp split: prod.splits sum.splits)
next
  case (Cons a xs)
  show ?case by (simp add: Cons.IH split: prod.splits sum.splits)
qed

text \<open>
  Ancestors are visited from the root down, and what an ancestor contributes is
  appended after what the ancestors above it contributed.
\<close>

lemma findConfigFolders_appends:
  "\<exists>more. fst (findConfigFolders gd chunks currentPath configFolders st) = configFolders @ more"
proof (induction chunks arbitrary: currentPath configFolders st)
  case Nil
  show ?case by simp
next
  case (Cons chunk chunks)
  obtain r s where g: "gd (replaceAll (currentPath @ chunk @ ''/'') ''//'' ''/'') st = (r, s)"
    by (cases "gd (replaceAll (currentPath @ chunk @ ''/'') ''//'' ''/'') st")
  show ?case
  proof (cases r)
    case (Inl err)
    with g Cons.IH show ?thesis by (simp add: Let_def)
  next
    case (Inr entry)
    let ?found = "map (\<lambda>dir. replaceAll (replaceAll (currentPath @ chunk @ ''/'') ''//'' ''/'' @ ''/'' @ dir) ''//'' ''/'')
                    (filter (\<lambda>dir. toLowerCase dir \<in> set YAML_FOLDERS) (dirs entry))"
    from Cons.IH [of "replaceAll (currentPath @ chunk @ ''/'') ''//'' ''/''" "configFolders @ ?found" s]
    obtain more where "fst (findConfigFolders gd chunks (replaceAll (currentPath @ chunk @ ''/'') ''//'' ''/'')
                             (configFolders @ ?found) s) = (configFolders @ ?found) @ more"
      by blast
    with g Inr show ?thesis by (simp add: Let_def)
  qed
qed

text \<open>
  Whatever the folder string, the target folder is the last candidate, and what it
  matches is recorded over what the earlier candidates gave.
\<close>

lemma findAllYamlConfigs_target_last:
  assumes "findAllYamlConfigs e nsort mm fs folder st = (Inr yamls, st')"
  shows "\<exists>ancestors s0 earlier s1 entry.
           candidateFolders e nsort fs folder st = (ancestors @ [folder], s0)
         \<and> collectYamls (getDirectory e nsort fs) mm ancestors
              \<lparr>dashboards = Map.empty, topsheets = Map.empty, vizes = Map.empty, configs = Map.empty\<rparr> s0
             = (Inr earlier, s1)
         \<and> getDirectory e nsort fs folder s1 = (Inr entry, st')
         \<and> yamls = recordFolder mm folder (files entry) earlier
         \<and> (\<forall>f\<in>set (mm (files entry) dashboard). dashboards yamls f = Some (resolved folder f))
         \<and> (\<forall>f\<in>set (mm (files entry) topsheet). topsheets yamls f = Some (resolved folder f))
         \<and> (\<forall>f\<in>set (mm (files entry) viz). vizes yamls f = Some (resolved folder f))
         \<and> (\<forall>f\<in>set (mm (files entry) config). configs yamls f = Some (resolved folder f))
         \<and> (\<forall>f. f \<notin> set (mm (files entry) dashboard) \<longrightarrow> dashboards yamls f = dashboards earlier f)"
proof -
  let ?Y0 = "\<lparr>dashboards = Map.empty, topsheets = Map.empty, vizes = Map.empty, configs = Map.empty\<rparr>"
  obtain ancestors s0 where c: "candidateFolders e nsort fs folder st = (ancestors @ [folder], s0)"
    by (simp add: candidateFolders_def Let_def)
  with assms have run: "collectYamls (getDirectory e nsort fs) mm (ancestors @ [folder]) ?Y0 s0 = (Inr yamls, st')"
    by (simp add: findAllYamlConfigs_def Let_def)
  obtain r1 s1 where a: "collectYamls (getDirectory e nsort fs) mm ancestors ?Y0 s0 = (r1, s1)"
    by (cases "collectYamls (getDirectory e nsort fs) mm ancestors ?Y0 s0")
  from run a obtain earlier where r1: "r1 = Inr earlier"
    by (cases r1) (auto simp: collectYamls_snoc)
  obtain r2 s2 where g: "getDirectory e nsort fs folder s1 = (r2, s2)"
    by (cases "getDirectory e nsort fs folder s1")
  from run a r1 g obtain entry where r2: "r2 = Inr entry"
    by (cases r2) (auto simp: collectYamls_snoc)
  from run a r1 g r2 have y: "yamls = recordFolder mm folder (files entry) earlier" and s: "s2 = st'"
    by (auto simp: collectYamls_snoc)
  have "\<forall>f\<in>set (mm (files entry) dashboard). dashboards yamls f = Some (resolved folder f)"
    and "\<forall>f\<in>set (mm (files entry) topsheet). topsheets yamls f = Some (resolved folder f)"
    and "\<forall>f\<in>set (mm (files entry) viz). vizes yamls f = Some (resolved folder f)"
    and "\<forall>f\<in>set (mm (files entry) config). configs yamls f = Some (resolved folder f)"
    and "\<forall>f. f \<notin> set (mm (files entry) dashboard) \<longrightarrow> dashboards yamls f = dashboards earlier f"
    unfolding y by (simp_all add: recordFolder_def recordMatches_in recordMatches_out)
  with c a r1 g r2 y s show ?thesis by blast
qed

text \<open>
  The chunks of a folder made of plain segments are an empty string and the segments,
  and the path of each ancestor, built with \<open>replaceAll('//', '/')\<close>, is the path before
  it with the next segment and a separator.
\<close>

lemma split_from_segment:
  "CHR ''/'' \<notin> set seg \<Longrightarrow> split_from (seg @ rest) ''/'' cur = split_from rest ''/'' (rev seg @ cur)"
  by (induction seg arbitrary: cur) (auto simp: startsWith_def)

lemma split_from_separator:
  "split_from (''/'' @ rest) ''/'' cur = rev cur # split_from rest ''/'' []"
  by (simp add: startsWith_def)

lemma split_from_join:
  "segs \<noteq> [] \<Longrightarrow> \<forall>s\<in>set segs. CHR ''/'' \<notin> set s \<Longrightarrow> split_from (join segs ''/'') ''/'' [] = segs"
proof (induction segs "''/''" rule: join.induct)
  case 1
  then show ?case by simp
next
  case (2 x)
  then show ?case using split_from_segment [of x "[]" "[]"] by simp
next
  case (3 x y ys)
  have "split_from (x @ ''/'' @ join (y # ys) ''/'') ''/'' [] = x # split_from (join (y # ys) ''/'') ''/'' []"
    using 3 split_from_segment [of x "''/'' @ join (y # ys) ''/''" "[]"]
    by (simp only: split_from_separator) simp
  with 3 show ?case by simp
qed

lemma split_folder:
  assumes "segs \<noteq> []" and "\<forall>s\<in>set segs. CHR ''/'' \<notin> set s"
  shows "split (''/'' @ join segs ''/'') ''/'' = [] # segs"
  using split_from_join [OF assms] split_from_separator [of "join segs ''/''" "[]"]
  by (simp add: split_def)

lemma replaceAll_noDoubleSlash: "noDoubleSlash s \<Longrightarrow> replaceAll s ''//'' ''/'' = s"
  by (induction s rule: noDoubleSlash.induct) (auto simp: startsWith_def)

lemma noDoubleSlash_plain: "CHR ''/'' \<notin> set s \<Longrightarrow> noDoubleSlash s"
  by (induction s rule: noDoubleSlash.induct) auto

lemma noDoubleSlash_append:
  "noDoubleSlash a \<Longrightarrow> noDoubleSlash b \<Longrightarrow> b \<noteq> [] \<Longrightarrow> hd b \<noteq> CHR ''/'' \<Longrightarrow> noDoubleSlash (a @ b)"
proof (induction a rule: noDoubleSlash.induct)
  case 1
  then show ?case by simp
next
  case (2 c)
  then show ?case by (cases b) auto
next
  case (3 x y cs)
  then show ?case by simp
qed

lemma noDoubleSlash_segment:
  assumes "noDoubleSlash prefix" and "s \<noteq> []" and "CHR ''/'' \<notin> set s"
  shows "noDoubleSlash (prefix @ s @ ''/'')"
proof -
  have "noDoubleSlash (s @ ''/'')"
    using assms(2,3) by (induction s rule: noDoubleSlash.induct) auto
  moreover have "hd (s @ ''/'') \<noteq> CHR ''/''" using assms(2,3) by (cases s) auto
  ultimately show ?thesis using assms(1) noDoubleSlash_append [of prefix "s @ ''/''"] by simp
qed

lemma replaceAll_junction:
  "noDoubleSlash (q @ ''/'') \<Longrightarrow> replaceAll (q @ ''//'' @ t) ''//'' ''/'' = q @ ''/'' @ replaceAll t ''//'' ''/''"
proof (induction q rule: noDoubleSlash.induct)
  case 1
  then show ?case by (simp add: startsWith_def)
next
  case (2 c)
  then show ?case by (auto simp: startsWith_def)
next
  case (3 x y cs)
  then show ?case by (auto simp: startsWith_def)
qed

lemma config_folder_name_plain:
  assumes "toLowerCase dir \<in> set YAML_FOLDERS"
  shows "CHR ''/'' \<notin> set dir"
proof
  assume "CHR ''/'' \<in> set dir"
  then have "toLower (CHR ''/'') \<in> set (toLowerCase dir)" by (auto simp: toLowerCase_def)
  moreover have "toLower (CHR ''/'') = CHR ''/''" by code_simp
  ultimately have "CHR ''/'' \<in> set (toLowerCase dir)" by simp
  with assms show False by (auto simp: YAML_FOLDERS_def)
qed

text \<open>
  Under an ancestor prefix (free of double separators and ending with one), the code's
  resolved config-folder paths are the prefix followed by the folder's name.
\<close>

lemma found_is_configFoldersAt:
  assumes "noDoubleSlash (q @ ''/'')"
  shows "map (\<lambda>dir. replaceAll ((q @ ''/'') @ ''/'' @ dir) ''//'' ''/'')
           (filter (\<lambda>dir. toLowerCase dir \<in> set YAML_FOLDERS) (dirs entry))
         = configFoldersAt (q @ ''/'') (Inr entry)"
proof -
  have "replaceAll ((q @ ''/'') @ ''/'' @ dir) ''//'' ''/'' = (q @ ''/'') @ dir"
    if "toLowerCase dir \<in> set YAML_FOLDERS" for dir
  proof -
    from that have "CHR ''/'' \<notin> set dir" by (rule config_folder_name_plain)
    then have "replaceAll dir ''//'' ''/'' = dir"
      by (intro replaceAll_noDoubleSlash noDoubleSlash_plain)
    with replaceAll_junction [OF assms, of dir] show ?thesis by simp
  qed
  then show ?thesis by (simp add: configFoldersAt_def)
qed

lemma findConfigFolders_prefixes:
  assumes "noDoubleSlash (q @ ''/'')" and "\<forall>s\<in>set ss. s \<noteq> [] \<and> CHR ''/'' \<notin> set s"
  shows "findConfigFolders gd ss (q @ ''/'') acc st =
           (acc @ configFoldersOf (prefixesFrom (q @ ''/'') ss)
                    (fst (listAll gd (prefixesFrom (q @ ''/'') ss) st)),
            snd (listAll gd (prefixesFrom (q @ ''/'') ss) st))"
  using assms
proof (induction ss arbitrary: q acc st)
  case Nil
  show ?case by (simp add: configFoldersOf_def)
next
  case (Cons s ss)
  let ?p = "(q @ ''/'') @ s @ ''/''"
  from Cons.prems have s: "s \<noteq> []" "CHR ''/'' \<notin> set s" by auto
  have clean: "noDoubleSlash ?p" using Cons.prems(1) s by (rule noDoubleSlash_segment)
  then have same: "replaceAll ?p ''//'' ''/'' = ?p" by (rule replaceAll_noDoubleSlash)
  have clean': "noDoubleSlash ((q @ ''/'' @ s) @ ''/'')" using clean by simp
  have IH: "findConfigFolders gd ss ?p acc' st' =
           (acc' @ configFoldersOf (prefixesFrom ?p ss) (fst (listAll gd (prefixesFrom ?p ss) st')),
            snd (listAll gd (prefixesFrom ?p ss) st'))" for acc' st'
    using Cons.IH [of "q @ ''/'' @ s" acc' st'] clean' Cons.prems(2) by simp
  obtain r st1 where g: "gd ?p st = (r, st1)" by (cases "gd ?p st")
  show ?case
  proof (cases r)
    case (Inl err)
    with g same IH [of acc st1] show ?thesis
      by (simp add: Let_def configFoldersOf_def configFoldersAt_def)
  next
    case (Inr entry)
    have found: "map (\<lambda>dir. replaceAll (?p @ ''/'' @ dir) ''//'' ''/'')
                   (filter (\<lambda>dir. toLowerCase dir \<in> set YAML_FOLDERS) (dirs entry))
                 = configFoldersAt ?p (Inr entry)"
      using found_is_configFoldersAt [OF clean', of entry] by simp
    from g Inr same IH [of "acc @ configFoldersAt ?p (Inr entry)" st1] found show ?thesis
      by (simp add: Let_def configFoldersOf_def)
  qed
qed

text \<open>
  The candidates: the config-named subdirectories of \<open>/\<close>, \<open>/s1/\<close>, ... down to the
  parent of the target, in that order, and then the target folder.
\<close>

lemma join_not_absolute:
  assumes "segs \<noteq> []" and "\<forall>s\<in>set segs. s \<noteq> [] \<and> CHR ''/'' \<notin> set s"
  shows "\<not> startsWith (join segs ''/'') ''/''"
proof -
  from assms obtain x rest where segs: "segs = x # rest" by (cases segs) auto
  with assms obtain c cs where x: "x = c # cs" and c: "c \<noteq> CHR ''/''" by (cases x) auto
  show ?thesis
  proof (cases rest)
    case Nil
    with segs x c show ?thesis by (simp add: startsWith_def)
  next
    case (Cons y ys)
    with segs x c show ?thesis by (simp add: startsWith_def)
  qed
qed

lemma candidateFolders_ancestors:
  assumes segs: "segs \<noteq> []" "\<forall>s\<in>set segs. s \<noteq> [] \<and> CHR ''/'' \<notin> set s"
    and folder: "folder = ''/'' @ join segs ''/'' \<or> folder = join segs ''/''"
  shows "candidateFolders e nsort fs folder st =
           (configFoldersOf (ancestorPrefixes segs)
              (fst (listAll (getDirectory e nsort fs) (ancestorPrefixes segs) st)) @ [folder],
            snd (listAll (getDirectory e nsort fs) (ancestorPrefixes segs) st))"
proof -
  let ?gd = "getDirectory e nsort fs"
  let ?ss = "butlast segs"
  have plain: "\<forall>s\<in>set segs. CHR ''/'' \<notin> set s" using segs(2) by blast
  have full: "(if startsWith folder ''/'' then folder else ''/'' @ folder) = ''/'' @ join segs ''/''"
    using folder join_not_absolute [OF segs] by (auto simp: startsWith_def)
  have chunks: "take (length (split (''/'' @ join segs ''/'') ''/'') - 1) (split (''/'' @ join segs ''/'') ''/'')
                  = [] # ?ss"
  proof -
    have sp: "split (''/'' @ join segs ''/'') ''/'' = [] # segs" by (rule split_folder [OF segs(1) plain])
    from segs(1) obtain k where k: "length segs = Suc k" by (cases segs) auto
    show ?thesis unfolding sp by (simp add: k butlast_conv_take)
  qed
  have ss: "\<forall>s\<in>set ?ss. s \<noteq> [] \<and> CHR ''/'' \<notin> set s"
    using segs(2) by (auto dest: in_set_butlastD)
  have root: "replaceAll ''//'' ''//'' ''/'' = ''/''" by (simp add: startsWith_def)
  have rest: "findConfigFolders ?gd ?ss ''/'' acc st1 =
           (acc @ configFoldersOf (prefixesFrom ''/'' ?ss) (fst (listAll ?gd (prefixesFrom ''/'' ?ss) st1)),
            snd (listAll ?gd (prefixesFrom ''/'' ?ss) st1))" for acc st1
    using findConfigFolders_prefixes [of "[]" ?ss ?gd acc st1] ss by simp
  have found: "map (\<lambda>dir. replaceAll (CHR ''/'' # CHR ''/'' # dir) ''//'' ''/'')
                 (filter (\<lambda>dir. toLowerCase dir \<in> set YAML_FOLDERS) (dirs entry))
               = configFoldersAt ''/'' (Inr entry)" for entry
    using found_is_configFoldersAt [of "[]" entry] by simp
  have step: "findConfigFolders ?gd ([] # ?ss) ''/'' [] st =
           (case ?gd ''/'' st of
              (Inl err, st1) \<Rightarrow> findConfigFolders ?gd ?ss ''/'' [] st1
            | (Inr entry, st1) \<Rightarrow> findConfigFolders ?gd ?ss ''/'' (configFoldersAt ''/'' (Inr entry)) st1)"
    by (simp add: Let_def root found del: replaceAll.simps split: prod.splits sum.splits)
  have walk: "findConfigFolders ?gd ([] # ?ss) ''/'' [] st =
           (configFoldersOf (ancestorPrefixes segs) (fst (listAll ?gd (ancestorPrefixes segs) st)),
            snd (listAll ?gd (ancestorPrefixes segs) st))"
    unfolding step
    by (cases "?gd ''/'' st"; cases "fst (?gd ''/'' st)")
       (simp_all add: rest ancestorPrefixes_def configFoldersOf_def configFoldersAt_def)
  show ?thesis
    unfolding candidateFolders_def Let_def full chunks walk by simp
qed

lemma ancestorPrefixes_example:
  "ancestorPrefixes [''a'', ''b'', ''c''] = [''/'', ''/a/'', ''/a/b/'']"
  by (simp add: ancestorPrefixes_def)

text \<open>
  The mappings: every candidate is listed in order, and a filename resolves under the
  last candidate whose files match the pattern with it.
\<close>

lemma collectYamls_listAll:
  "collectYamls gd mm cands y st = (Inr yamls, st') \<Longrightarrow>
   \<exists>entries. listAll gd cands st = (map Inr entries, st')
     \<and> yamls = foldl (\<lambda>y (folder, entry). recordFolder mm folder (files entry) y) y (zip cands entries)"
proof (induction cands arbitrary: y st)
  case Nil
  then show ?case by simp
next
  case (Cons c cands)
  obtain r st1 where g: "gd c st = (r, st1)" by (cases "gd c st")
  with Cons.prems obtain entry where r: "r = Inr entry" by (cases r) auto
  with g Cons.prems have "collectYamls gd mm cands (recordFolder mm c (files entry) y) st1 = (Inr yamls, st')"
    by simp
  from Cons.IH [OF this] obtain entries where
    l: "listAll gd cands st1 = (map Inr entries, st')"
    and y: "yamls = foldl (\<lambda>y (folder, entry). recordFolder mm folder (files entry) y)
                      (recordFolder mm c (files entry) y) (zip cands entries)"
    by blast
  from g r l y have "listAll gd (c # cands) st = (map Inr (entry # entries), st')
     \<and> yamls = foldl (\<lambda>y (folder, entry). recordFolder mm folder (files entry) y) y
                 (zip (c # cands) (entry # entries))"
    by simp
  then show ?case by blast
qed

lemma foldl_recordMatches_lastMatch:
  "foldl (\<lambda>m (folder, fl). recordMatches folder m (mm fl pat)) m0 candidates f =
     (case lastMatch mm pat candidates f of None \<Rightarrow> m0 f | Some path \<Rightarrow> Some path)"
proof (induction candidates rule: rev_induct)
  case Nil
  show ?case by (simp add: lastMatch_def)
next
  case (snoc c cs)
  obtain folder fl where c: "c = (folder, fl)" by (cases c)
  show ?case
  proof (cases "f \<in> set (mm fl pat)")
    case True
    then have "lastMatch mm pat (cs @ [c]) f = Some (resolved folder f)"
      by (simp add: lastMatch_def c)
    with True c show ?thesis by (simp add: recordMatches_in)
  next
    case False
    then have "lastMatch mm pat (cs @ [c]) f = lastMatch mm pat cs f"
      by (simp add: lastMatch_def c)
    with False c snoc show ?thesis by (simp add: recordMatches_out)
  qed
qed

lemma foldl_recordFolder_fields:
  "dashboards (foldl (\<lambda>y (folder, entry). recordFolder mm folder (files entry) y) y pairs)
     = foldl (\<lambda>m (folder, fl). recordMatches folder m (mm fl dashboard)) (dashboards y)
         (map (\<lambda>(folder, entry). (folder, files entry)) pairs)
   \<and> topsheets (foldl (\<lambda>y (folder, entry). recordFolder mm folder (files entry) y) y pairs)
     = foldl (\<lambda>m (folder, fl). recordMatches folder m (mm fl topsheet)) (topsheets y)
         (map (\<lambda>(folder, entry). (folder, files entry)) pairs)
   \<and> vizes (foldl (\<lambda>y (folder, entry). recordFolder mm folder (files entry) y) y pairs)
     = foldl (\<lambda>m (folder, fl). recordMatches folder m (mm fl viz)) (vizes y)
         (map (\<lambda>(folder, entry). (folder, files entry)) pairs)
   \<and> configs (foldl (\<lambda>y (folder, entry). recordFolder mm folder (files entry) y) y pairs)
     = foldl (\<lambda>m (folder, fl). recordMatches folder m (mm fl config)) (configs y)
         (map (\<lambda>(folder, entry). (folder, files entry)) pairs)"
  by (induction pairs rule: rev_induct) (auto simp: recordFolder_def)

lemma zip_map_files:
  "map (\<lambda>(folder, entry). (folder, files entry)) (zip cands entries) = zip cands (map files entries)"
  by (induction cands entries rule: list_induct2') auto

lemma listAll_length: "length (fst (listAll gd ps st)) = length ps"
  by (induction ps arbitrary: st) auto

lemma lastMatch_last:
  "f \<in> set (mm fl pat) \<Longrightarrow> lastMatch mm pat (cs @ [(folder, fl)]) f = Some (resolved folder f)"
  by (simp add: lastMatch_def)

lemma zip_snoc_last:
  assumes "length entries = Suc (length xs)"
  shows "zip (xs @ [folder]) (map files entries)
           = zip xs (map files (butlast entries)) @ [(folder, files (last entries))]"
proof -
  from assms obtain es e where e: "entries = es @ [e]" and l: "length es = length xs"
    by (cases entries rule: rev_cases) auto
  then show ?thesis by simp
qed

text \<open>
  C7: config discovery lists the ancestors of the target folder from the root down,
  \<open>/\<close>, \<open>/s1/\<close>, ..., up to the target's parent, takes as candidates, in that order,
  the subdirectories whose lower-cased name is a config-folder name (an ancestor whose
  listing fails gives none), and appends the target folder itself as the final
  candidate. It then lists every candidate in that order, and each of the four mappings
  resolves a filename under the last candidate in which it matches the pattern: a
  nearer folder overwrites a farther one, and a filename matching in the target folder
  resolves to the target-folder path whatever the ancestors hold.
\<close>

theorem findAllYamlConfigs_discovery:
  assumes segs: "segs \<noteq> []" "\<forall>s\<in>set segs. s \<noteq> [] \<and> CHR ''/'' \<notin> set s"
    and folder: "folder = ''/'' @ join segs ''/'' \<or> folder = join segs ''/''"
    and run: "findAllYamlConfigs e nsort mm fs folder st = (Inr yamls, st')"
  shows "\<exists>entries.
           candidateFolders e nsort fs folder st =
             (configFoldersOf (ancestorPrefixes segs)
                (fst (listAll (getDirectory e nsort fs) (ancestorPrefixes segs) st)) @ [folder],
              snd (listAll (getDirectory e nsort fs) (ancestorPrefixes segs) st))
         \<and> listAll (getDirectory e nsort fs) (fst (candidateFolders e nsort fs folder st))
              (snd (candidateFolders e nsort fs folder st)) = (map Inr entries, st')
         \<and> dashboards yamls =
              lastMatch mm dashboard (zip (fst (candidateFolders e nsort fs folder st)) (map files entries))
         \<and> topsheets yamls =
              lastMatch mm topsheet (zip (fst (candidateFolders e nsort fs folder st)) (map files entries))
         \<and> vizes yamls =
              lastMatch mm viz (zip (fst (candidateFolders e nsort fs folder st)) (map files entries))
         \<and> configs yamls =
              lastMatch mm config (zip (fst (candidateFolders e nsort fs folder st)) (map files entries))
         \<and> (\<forall>pat. \<forall>f\<in>set (mm (files (last entries)) pat).
               lastMatch mm pat (zip (fst (candidateFolders e nsort fs folder st)) (map files entries)) f
                 = Some (resolved folder f))"
proof -
  let ?gd = "getDirectory e nsort fs"
  let ?Y0 = "\<lparr>dashboards = Map.empty, topsheets = Map.empty, vizes = Map.empty, configs = Map.empty\<rparr>"
  let ?cands = "fst (candidateFolders e nsort fs folder st)"
  let ?s0 = "snd (candidateFolders e nsort fs folder st)"
  let ?step = "\<lambda>y (folder, entry). recordFolder mm folder (files entry) y"
  note c = candidateFolders_ancestors [OF segs folder, of e nsort fs st]
  from run have "collectYamls ?gd mm ?cands ?Y0 ?s0 = (Inr yamls, st')"
    by (simp add: findAllYamlConfigs_def Let_def)
  from collectYamls_listAll [OF this] obtain entries where
    l: "listAll ?gd ?cands ?s0 = (map Inr entries, st')"
    and y: "yamls = foldl ?step ?Y0 (zip ?cands entries)"
    by blast
  have field: "foldl (\<lambda>m (folder, fl). recordMatches folder m (mm fl pat)) Map.empty
                 (zip ?cands (map files entries)) = lastMatch mm pat (zip ?cands (map files entries))"
    for pat
    by (rule ext) (simp add: foldl_recordMatches_lastMatch split: option.splits)
  have d: "dashboards yamls = lastMatch mm dashboard (zip ?cands (map files entries))"
    and t: "topsheets yamls = lastMatch mm topsheet (zip ?cands (map files entries))"
    and v: "vizes yamls = lastMatch mm viz (zip ?cands (map files entries))"
    and g: "configs yamls = lastMatch mm config (zip ?cands (map files entries))"
    using foldl_recordFolder_fields [of mm ?Y0 "zip ?cands entries"]
    unfolding y by (simp_all add: zip_map_files field)
  have "length entries = length ?cands"
    using listAll_length [of ?gd ?cands ?s0] l by simp
  with c have len: "length entries
      = Suc (length (configFoldersOf (ancestorPrefixes segs) (fst (listAll ?gd (ancestorPrefixes segs) st))))"
    by simp
  have target: "\<forall>pat. \<forall>f\<in>set (mm (files (last entries)) pat).
               lastMatch mm pat (zip ?cands (map files entries)) f = Some (resolved folder f)"
    using c zip_snoc_last [OF len, of folder] by (simp add: lastMatch_last)
  from c l d t v g target show ?thesis by blast
qed

lemma listed_files:
  "map listed (map Inr entries) = map Some xs \<Longrightarrow> map files entries = map snd xs"
  by (induction entries arbitrary: xs) auto

theorem findAllYamlConfigs_discovery_witness:
  "\<exists>yamls st'.
     findAllYamlConfigs host_env nsort_ref glob_ref layered_fs ''/root/project'' fresh = (Inr yamls, st')
     \<and> fst (candidateFolders host_env nsort_ref layered_fs ''/root/project'' fresh)
         = [''/simwrapper'', ''/root/SimWrapper'', ''/root/project'']
     \<and> dashboards yamls ''dashboard-1.yaml'' = Some ''/root/project/dashboard-1.yaml''
     \<and> dashboards yamls ''dashboard-2.yaml'' = Some ''/root/SimWrapper/dashboard-2.yaml''
     \<and> dashboards yamls ''dashboard-3.yaml'' = Some ''/simwrapper/dashboard-3.yaml''
     \<and> dashboards yamls ''notes.txt'' = None"
proof -
  let ?gd = "getDirectory host_env nsort_ref layered_fs"
  let ?find = "findAllYamlConfigs host_env nsort_ref glob_ref layered_fs"
  let ?cf = "candidateFolders host_env nsort_ref layered_fs ''/root/project'' fresh"
  let ?segs = "[''root'', ''project'']"
  let ?s0 = "snd (listAll ?gd (ancestorPrefixes ?segs) fresh)"
  let ?cands = "[''/simwrapper'', ''/root/SimWrapper'', ''/root/project'']"
  let ?fls = "[[''dashboard-1.yaml'', ''dashboard-2.yaml'', ''dashboard-3.yaml''],
               [''dashboard-1.yaml'', ''dashboard-2.yaml''],
               [''dashboard-1.yaml'', ''notes.txt'']]"
  have "thrownBy (fst (?find ''/root/project'' fresh)) = None"
    by code_simp
  then obtain yamls st' where run: "?find ''/root/project'' fresh = (Inr yamls, st')"
    by (cases "?find ''/root/project'' fresh"; cases "fst (?find ''/root/project'' fresh)") auto
  have segs: "?segs \<noteq> []" "\<forall>s\<in>set ?segs. s \<noteq> [] \<and> CHR ''/'' \<notin> set s" by simp_all
  have folder: "''/root/project'' = ''/'' @ join ?segs ''/'' \<or> ''/root/project'' = join ?segs ''/''"
    by simp
  from findAllYamlConfigs_discovery [OF segs folder run] obtain entries where
    c: "?cf = (configFoldersOf (ancestorPrefixes ?segs) (fst (listAll ?gd (ancestorPrefixes ?segs) fresh))
               @ [''/root/project''], ?s0)"
    and l: "listAll ?gd (fst ?cf) (snd ?cf) = (map Inr entries, st')"
    and d: "dashboards yamls = lastMatch glob_ref dashboard (zip (fst ?cf) (map files entries))"
    by blast
  have "configFoldersOf (ancestorPrefixes ?segs) (fst (listAll ?gd (ancestorPrefixes ?segs) fresh))
          = [''/simwrapper'', ''/root/SimWrapper'']"
    by code_simp
  with c have cands: "fst ?cf = ?cands" and s0: "snd ?cf = ?s0" by simp_all
  have "map listed (fst (listAll ?gd ?cands ?s0)) = map Some (map (Pair []) ?fls)"
    by code_simp
  with l have "map listed (map Inr entries) = map Some (map (Pair []) ?fls)"
    unfolding cands s0 by simp
  from listed_files [OF this] have fls: "map files entries = ?fls" by simp
  have "lastMatch glob_ref dashboard (zip ?cands ?fls) ''dashboard-1.yaml'' = Some ''/root/project/dashboard-1.yaml''"
    and "lastMatch glob_ref dashboard (zip ?cands ?fls) ''dashboard-2.yaml'' = Some ''/root/SimWrapper/dashboard-2.yaml''"
    and "lastMatch glob_ref dashboard (zip ?cands ?fls) ''dashboard-3.yaml'' = Some ''/simwrapper/dashboard-3.yaml''"
    and "lastMatch glob_ref dashboard (zip ?cands ?fls) ''notes.txt'' = None"
    by code_simp+
  then have "dashboards yamls ''dashboard-1.yaml'' = Some ''/root/project/dashboard-1.yaml''"
    and "dashboards yamls ''dashboard-2.yaml'' = Some ''/root/SimWrapper/dashboard-2.yaml''"
    and "dashboards yamls ''dashboard-3.yaml'' = Some ''/simwrapper/dashboard-3.yaml''"
    and "dashboards yamls ''notes.txt'' = None"
    unfolding d cands fls by blast+
  with run cands show ?thesis by blast
qed

lemma findAllYamlConfigs_example:
  "(case fst (findAllYamlConfigs host_env nsort_ref glob_ref local_fs ''/root/project'' fresh) of
      Inl err \<Rightarrow> None
    | Inr yamls \<Rightarrow> Some (dashboards yamls ''dashboard-1.yaml'', dashboards yamls ''dashboard-2.yaml'',
                         vizes yamls ''viz-map.yml''))
   = Some (Some ''/root/project/dashboard-1.yaml'', Some ''/root/simwrapper/dashboard-2.yaml'',
           Some ''/root/project/viz-map.yml'')"
  by code_simp

subsection \<open>Wildcard expansion of the xy-time loader\<close>

lemma listed_SomeD: "listed r = Some (ds, fl) \<Longrightarrow> \<exists>d. r = Inr d \<and> dirs d = ds \<and> files d = fl"
  by (cases r) auto

lemma expandFilename_wildcard:
  assumes "str_indexOf filepath ''*'' > -1 \<or> str_indexOf filepath ''?'' > -1"
    and "getDirectory e nsort (newHTTPFileSystem fileSystem None)
           (take (nat (str_lastIndexOf filepath ''/'')) filepath) st = (Inr entry, st')"
  shows "expandFilename e nsort glob filepath fileSystem st =
     (let zDataset = substring_from filepath (1 + str_lastIndexOf filepath ''/'');
          zSubfolder = take (nat (str_lastIndexOf filepath ''/'')) filepath;
          matchingFiles = glob (files entry) zDataset
      in if length matchingFiles = 0 then
           (Inl (JSError (''No files matched '' @ dquote @ zDataset @ dquote)), st')
         else if length matchingFiles > 1 then
           (Inl (JSError (''More than one file matched '' @ dquote @ zDataset @ dquote
                          @ '': '' @ join matchingFiles '','')), st')
         else (Inr (zSubfolder @ ''/'' @ matchingFiles ! 0), st'))"
  using assms by (simp add: expandFilename_def Let_def)

text \<open>
  C9, as stated, fails: "if more than one file matches it throws a hard error naming
  the candidate files". The error that names the candidates is thrown inside the
  loader's own \<open>try\<close>; its \<open>catch\<close> writes it to the console, posts an error message
  and throws \<open>LOAD FAIL!\<close> with the filepath instead. For \<open>/root/project/trips-*.csv\<close>,
  which matches \<open>trips-a.csv\<close> and \<open>trips-b.csv\<close>, the error thrown names neither.
\<close>

theorem step1PrepareFetch_error_without_candidates:
  "returned (fst (step1PrepareFetch host_env nsort_ref glob_ref
                    ''/root/project/trips-*.csv'' local_config fresh))
     = Inl (JSError ''LOAD FAIL! /root/project/trips-*.csv'')
   \<and> \<not> includes_str ''LOAD FAIL! /root/project/trips-*.csv'' ''trips-a.csv''
   \<and> \<not> includes_str ''LOAD FAIL! /root/project/trips-*.csv'' ''trips-b.csv''
   \<and> console_error (fst (step1PrepareFetch host_env nsort_ref glob_ref
                    ''/root/project/trips-*.csv'' local_config fresh))
     = [''Error: More than one file matched '' @ dquote @ ''trips-*.csv'' @ dquote
        @ '': trips-a.csv,trips-b.csv'']"
  by code_simp

text \<open>
  C9, amended: when the xy-time loader is given a filepath containing \<open>*\<close> or \<open>?\<close>, it
  lists the containing folder and, the listing given: if zero files match the wildcard,
  or more than one, it throws the hard error \<open>LOAD FAIL!\<close> with the filepath, after
  writing to the console, respectively, that no files matched and that more than one
  file matched, the latter with the names of the candidate files; if exactly one file
  matches it expands the path to that single file (under the base URL).
\<close>

theorem step1PrepareFetch_wildcard:
  assumes wild: "str_indexOf filepath ''*'' > -1 \<or> str_indexOf filepath ''?'' > -1"
    and dir: "getDirectory e nsort (newHTTPFileSystem fileSystem None)
                (take (nat (str_lastIndexOf filepath ''/'')) filepath) st = (Inr entry, st')"
    and m: "matchingFiles =
              glob (files entry) (substring_from filepath (1 + str_lastIndexOf filepath ''/''))"
  shows "(matchingFiles = [] \<longrightarrow>
            fst (step1PrepareFetch e nsort glob filepath fileSystem st) =
              \<lparr>returned = Inl (JSError (''LOAD FAIL! '' @ filepath)),
               posted = [StatusMessage (''Loading '' @ filepath @ ''...''),
                         ErrorMessage (''Error loading: '' @ filepath)],
               console_error =
                 [''Error: No files matched '' @ dquote
                  @ substring_from filepath (1 + str_lastIndexOf filepath ''/'') @ dquote]\<rparr>)
       \<and> (length matchingFiles > 1 \<longrightarrow>
            fst (step1PrepareFetch e nsort glob filepath fileSystem st) =
              \<lparr>returned = Inl (JSError (''LOAD FAIL! '' @ filepath)),
               posted = [StatusMessage (''Loading '' @ filepath @ ''...''),
                         ErrorMessage (''Error loading: '' @ filepath)],
               console_error =
                 [''Error: More than one file matched '' @ dquote
                  @ substring_from filepath (1 + str_lastIndexOf filepath ''/'') @ dquote
                  @ '': '' @ join matchingFiles '','']\<rparr>)
       \<and> (\<forall>f. matchingFiles = [f] \<longrightarrow>
            returned (fst (step1PrepareFetch e nsort glob filepath fileSystem st)) =
              Inr (baseURL fileSystem @ ''/''
                   @ take (nat (str_lastIndexOf filepath ''/'')) filepath @ ''/'' @ f))"
proof -
  let ?zDataset = "substring_from filepath (1 + str_lastIndexOf filepath ''/'')"
  let ?zSubfolder = "take (nat (str_lastIndexOf filepath ''/'')) filepath"
  have ex: "expandFilename e nsort glob filepath fileSystem st =
     (if length matchingFiles = 0 then
           (Inl (JSError (''No files matched '' @ dquote @ ?zDataset @ dquote)), st')
         else if length matchingFiles > 1 then
           (Inl (JSError (''More than one file matched '' @ dquote @ ?zDataset @ dquote
                          @ '': '' @ join matchingFiles '','')), st')
         else (Inr (?zSubfolder @ ''/'' @ matchingFiles ! 0), st'))"
    using expandFilename_wildcard [of filepath e nsort fileSystem st entry st' glob] wild dir
    by (simp only: m Let_def)
  have none: "matchingFiles = [] \<longrightarrow>
            fst (step1PrepareFetch e nsort glob filepath fileSystem st) =
              \<lparr>returned = Inl (JSError (''LOAD FAIL! '' @ filepath)),
               posted = [StatusMessage (''Loading '' @ filepath @ ''...''),
                         ErrorMessage (''Error loading: '' @ filepath)],
               console_error = [''Error: No files matched '' @ dquote @ ?zDataset @ dquote]\<rparr>"
    by (simp add: step1PrepareFetch_def ex)
  have many: "length matchingFiles > 1 \<longrightarrow>
            fst (step1PrepareFetch e nsort glob filepath fileSystem st) =
              \<lparr>returned = Inl (JSError (''LOAD FAIL! '' @ filepath)),
               posted = [StatusMessage (''Loading '' @ filepath @ ''...''),
                         ErrorMessage (''Error loading: '' @ filepath)],
               console_error =
                 [''Error: More than one file matched '' @ dquote @ ?zDataset @ dquote
                  @ '': '' @ join matchingFiles '','']\<rparr>"
    by (simp add: step1PrepareFetch_def ex)
  have one: "\<forall>f. matchingFiles = [f] \<longrightarrow>
            returned (fst (step1PrepareFetch e nsort glob filepath fileSystem st)) =
              Inr (baseURL fileSystem @ ''/'' @ ?zSubfolder @ ''/'' @ f)"
    by (simp add: step1PrepareFetch_def ex)
  from none many one show ?thesis by blast
qed

theorem step1PrepareFetch_wildcard_witness:
  "returned (fst (step1PrepareFetch host_env nsort_ref glob_ref
                    ''/root/project/viz-*.yml'' local_config fresh))
     = Inr ''//root/project/viz-map.yml''"
proof -
  let ?gd = "getDirectory host_env nsort_ref (newHTTPFileSystem local_config None)"
  let ?p = "''/root/project/viz-*.yml''"
  have wild: "str_indexOf ?p ''*'' > -1 \<or> str_indexOf ?p ''?'' > -1" by code_simp
  have "listed (fst (?gd (take (nat (str_lastIndexOf ?p ''/'')) ?p) fresh))
          = Some ([], [''dashboard-1.yaml'', ''trips-a.csv'', ''trips-b.csv'', ''viz-map.yml''])"
    by code_simp
  from listed_SomeD [OF this] obtain entry where
    r: "fst (?gd (take (nat (str_lastIndexOf ?p ''/'')) ?p) fresh) = Inr entry"
    and fl: "files entry = [''dashboard-1.yaml'', ''trips-a.csv'', ''trips-b.csv'', ''viz-map.yml'']"
    by blast
  from r have dir: "?gd (take (nat (str_lastIndexOf ?p ''/'')) ?p) fresh
                      = (Inr entry, snd (?gd (take (nat (str_lastIndexOf ?p ''/'')) ?p) fresh))"
    by (metis prod.collapse)
  have one: "glob_ref [''dashboard-1.yaml'', ''trips-a.csv'', ''trips-b.csv'', ''viz-map.yml'']
               (substring_from ?p (1 + str_lastIndexOf ?p ''/'')) = [''viz-map.yml'']"
    by code_simp
  have url: "baseURL local_config @ ''/'' @ take (nat (str_lastIndexOf ?p ''/'')) ?p @ ''/'' @ ''viz-map.yml''
               = ''//root/project/viz-map.yml''"
    by code_simp
  from step1PrepareFetch_wildcard
         [of ?p host_env nsort_ref local_config fresh entry _ _ glob_ref, OF wild dir refl]
  have "\<forall>f. glob_ref (files entry) (substring_from ?p (1 + str_lastIndexOf ?p ''/'')) = [f] \<longrightarrow>
          returned (fst (step1PrepareFetch host_env nsort_ref glob_ref ?p local_config fresh)) =
            Inr (baseURL local_config @ ''/'' @ take (nat (str_lastIndexOf ?p ''/'')) ?p @ ''/'' @ f)"
    by blast
  then have "returned (fst (step1PrepareFetch host_env nsort_ref glob_ref ?p local_config fresh)) =
          Inr (baseURL local_config @ ''/'' @ take (nat (str_lastIndexOf ?p ''/'')) ?p @ ''/'' @ ''viz-map.yml'')"
    unfolding fl one by blast
  then show ?thesis unfolding url .
qed

subsection \<open>Names of a directory entry\<close>

lemma endsWith_slash: "endsWith name ''/'' \<longleftrightarrow> name \<noteq> [] \<and> last name = CHR ''/''"
proof (cases name rule: rev_cases)
  case Nil
  then show ?thesis by (simp add: endsWith_def)
next
  case (snoc ys y)
  then show ?thesis by (auto simp: endsWith_def)
qed

lemma no_separator_file:
  "\<not> endsWith name ''/'' \<Longrightarrow> CHR ''/'' \<notin> set (butlast name) \<Longrightarrow> CHR ''/'' \<notin> set name"
  by (cases name rule: rev_cases) (auto simp: endsWith_slash)

lemma classify_names:
  assumes "CHR ''/'' \<notin> set (butlast name)"
    and "\<forall>n\<in>set (fst acc) \<union> set (snd acc). CHR ''/'' \<notin> set n"
  shows "\<forall>n\<in>set (fst (classify acc name)) \<union> set (snd (classify acc name)). CHR ''/'' \<notin> set n"
  using assms no_separator_file [of name] by (auto simp: classify_def)

lemma foldl_classify_names:
  assumes "\<forall>name\<in>set names. CHR ''/'' \<notin> set (butlast name)"
    and "\<forall>n\<in>set (fst acc) \<union> set (snd acc). CHR ''/'' \<notin> set n"
  shows "\<forall>n\<in>set (fst (foldl classify acc names)) \<union> set (snd (foldl classify acc names)).
           CHR ''/'' \<notin> set n"
  using assms
proof (induction names arbitrary: acc)
  case Nil
  then show ?case by simp
next
  case (Cons name names)
  from Cons.prems have "\<forall>n\<in>set (fst (classify acc name)) \<union> set (snd (classify acc name)). CHR ''/'' \<notin> set n"
    by (intro classify_names) auto
  with Cons.prems Cons.IH [of "classify acc name"] show ?case by simp
qed

lemma map_filter_names:
  assumes "\<forall>line\<in>set ls. \<forall>name. f line = Some name \<longrightarrow> CHR ''/'' \<notin> set (butlast name)"
  shows "\<forall>name\<in>set (List.map_filter f ls). CHR ''/'' \<notin> set (butlast name)"
  using assms by (auto simp: List.map_filter_def)

lemma map_filter_names_iff:
  "(\<forall>name\<in>set (List.map_filter f ls). P name)
     \<longleftrightarrow> (\<forall>line\<in>set ls. \<forall>name. f line = Some name \<longrightarrow> P name)"
  by (auto simp: List.map_filter_def)

lemma line_parser_names:
  assumes "\<forall>line\<in>set ls. \<forall>name. f line = Some name \<longrightarrow> CHR ''/'' \<notin> set (butlast name)"
  shows "\<forall>n\<in>set (dirs (mkEntry (foldl classify ([], []) (List.map_filter f ls))))
            \<union> set (files (mkEntry (foldl classify ([], []) (List.map_filter f ls)))). CHR ''/'' \<notin> set n"
  using foldl_classify_names [OF map_filter_names [OF assms], of "([], [])"]
  by (simp add: mkEntry_def Un_commute)

lemma str_lastIndexOf_lower: "- 1 \<le> str_lastIndexOf s p"
  by (induction s) (auto simp: Let_def)

lemma last_segment_no_separator: "CHR ''/'' \<notin> set (last_segment d)"
proof -
  have "CHR ''/'' \<notin> set (drop (nat (1 + str_lastIndexOf s ''/'')) s)" for s
  proof (induction s)
    case Nil
    show ?case by simp
  next
    case (Cons c cs)
    show ?case
    proof (cases "0 \<le> str_lastIndexOf cs ''/''")
      case True
      then have "nat (1 + (str_lastIndexOf cs ''/'' + 1)) = Suc (nat (1 + str_lastIndexOf cs ''/''))"
        by simp
      with True Cons.IH show ?thesis by (simp add: Let_def)
    next
      case False
      with str_lastIndexOf_lower [of cs "''/''"] have m: "str_lastIndexOf cs ''/'' = - 1" by simp
      with Cons.IH have "CHR ''/'' \<notin> set cs" by simp
      with m show ?thesis by (auto simp: Let_def startsWith_def)
    qed
  qed
  from this [of d] str_lastIndexOf_lower [of d "''/''"] show ?thesis
    by (simp add: last_segment_def slice_from_def)
qed

lemma parse_link_names:
  assumes "\<forall>h. fst link = Some h \<longrightarrow> CHR ''/'' \<notin> set (butlast h)"
    and "\<forall>n\<in>set (fst acc) \<union> set (snd acc). CHR ''/'' \<notin> set n"
  shows "\<forall>n\<in>set (fst (parse_link acc link)) \<union> set (snd (parse_link acc link)). CHR ''/'' \<notin> set n"
proof (cases "fst link")
  case None
  with assms(2) show ?thesis by (simp add: parse_link_def Let_def)
next
  case (Some h)
  with assms(1) have h: "CHR ''/'' \<notin> set (butlast h)" by simp
  from Some assms(2) h no_separator_file [of h] show ?thesis
    by (auto simp: parse_link_def Let_def)
qed

lemma foldl_parse_link_names:
  assumes "\<forall>link\<in>set links. \<forall>h. fst link = Some h \<longrightarrow> CHR ''/'' \<notin> set (butlast h)"
    and "\<forall>n\<in>set (fst acc) \<union> set (snd acc). CHR ''/'' \<notin> set n"
  shows "\<forall>n\<in>set (fst (foldl parse_link acc links)) \<union> set (snd (foldl parse_link acc links)).
           CHR ''/'' \<notin> set n"
  using assms
proof (induction links arbitrary: acc)
  case Nil
  then show ?case by simp
next
  case (Cons link links)
  from Cons.prems have "\<forall>n\<in>set (fst (parse_link acc link)) \<union> set (snd (parse_link acc link)). CHR ''/'' \<notin> set n"
    by (intro parse_link_names) auto
  with Cons.prems Cons.IH [of "parse_link acc link"] show ?case by simp
qed

text \<open>
  C8, as stated, fails: "every DirectoryEntry returned by getDirectory ... no directory
  name carries a trailing separator, and no file or directory name contains an embedded
  path separator". The parsers take the names from the listing and remove one trailing
  separator from a directory's name, nothing more. A Subversion-style listing of
  \<open>http://host/mirror/\<close> with the links \<open>pub/data/\<close>, \<open>old//\<close> and \<open>pub/readme.txt\<close>
  gives the directories \<open>old/\<close> and \<open>pub/data\<close> and the file \<open>pub/readme.txt\<close>.
\<close>

theorem getDirectory_names_with_separators:
  "listed (fst (getDirectory host_env nsort_ref web_root ''/mirror'' fresh))
     = Some ([''old/'', ''pub/data''], [''pub/readme.txt''])
   \<and> endsWith ''old/'' ''/''
   \<and> CHR ''/'' \<in> set ''pub/data''
   \<and> CHR ''/'' \<in> set ''pub/readme.txt''"
  by code_simp

text \<open>
  At the level of the parsers: a DirectoryEntry built by a listing parser has no name
  with a separator, provided that no name the parser reads from the listing (the link
  target, after the Subversion dialect has dropped a leading \<open>./\<close>) holds a separator
  anywhere but as its last character; the Node static-server dialect, which keeps the
  last path segment of every name, needs no proviso. The six conjuncts are the
  SimpleWebServer, Subversion, Apache 2.4, nginx and Node static-server dialects and the
  DOM-based parser.
\<close>

lemma parsers_names_without_separator:
  "((\<forall>line\<in>set (split data nl). \<forall>name. sws_name line = Some name \<longrightarrow> CHR ''/'' \<notin> set (butlast name))
      \<longrightarrow> (\<forall>n\<in>set (dirs (buildListFromSimpleWebServer data))
                 \<union> set (files (buildListFromSimpleWebServer data)). CHR ''/'' \<notin> set n))
   \<and> ((\<forall>line\<in>set (split data nl). \<forall>name. svn_name line = Some name \<longrightarrow> CHR ''/'' \<notin> set (butlast name))
      \<longrightarrow> (\<forall>n\<in>set (dirs (buildListFromSVN data)) \<union> set (files (buildListFromSVN data)).
             CHR ''/'' \<notin> set n))
   \<and> ((\<forall>line\<in>set (split data nl). \<forall>name. apache_name line = Some name \<longrightarrow> CHR ''/'' \<notin> set (butlast name))
      \<longrightarrow> (\<forall>n\<in>set (dirs (buildListFromApache24 data)) \<union> set (files (buildListFromApache24 data)).
             CHR ''/'' \<notin> set n))
   \<and> ((\<forall>line\<in>set (split data nl). \<forall>name. nginx_name line = Some name \<longrightarrow> CHR ''/'' \<notin> set (butlast name))
      \<longrightarrow> (\<forall>n\<in>set (dirs (buildListFromNGINX data)) \<union> set (files (buildListFromNGINX data)).
             CHR ''/'' \<notin> set n))
   \<and> (\<forall>n\<in>set (dirs (buildListFromNpxServe data)) \<union> set (files (buildListFromNpxServe data)).
         CHR ''/'' \<notin> set n)
   \<and> ((\<forall>link\<in>set (dom_links e markup). \<forall>h. fst link = Some h \<longrightarrow> CHR ''/'' \<notin> set (butlast h))
      \<longrightarrow> (\<forall>n\<in>set (fst (parseHtmlDirectoryListing e markup))
                 \<union> set (snd (parseHtmlDirectoryListing e markup)). CHR ''/'' \<notin> set n))"
proof -
  have npx: "\<forall>n\<in>set (dirs (buildListFromNpxServe data)) \<union> set (files (buildListFromNpxServe data)).
         CHR ''/'' \<notin> set n"
    by (auto simp: buildListFromNpxServe_def mkEntry_def Let_def last_segment_no_separator)
  have dom: "(\<forall>link\<in>set (dom_links e markup). \<forall>h. fst link = Some h \<longrightarrow> CHR ''/'' \<notin> set (butlast h))
      \<longrightarrow> (\<forall>n\<in>set (fst (parseHtmlDirectoryListing e markup))
                 \<union> set (snd (parseHtmlDirectoryListing e markup)). CHR ''/'' \<notin> set n)"
    using foldl_parse_link_names [of "dom_links e markup" "([], [])"]
    by (simp add: parseHtmlDirectoryListing_def)
  show ?thesis
    using line_parser_names [of "split data nl" sws_name]
      line_parser_names [of "split data nl" svn_name]
      line_parser_names [of "split data nl" apache_name]
      line_parser_names [of "split data nl" nginx_name]
      npx dom
    unfolding buildListFromSimpleWebServer_def buildListFromSVN_def buildListFromApache24_def
      buildListFromNGINX_def
    by blast
qed

lemma no_separator_not_trailing: "CHR ''/'' \<notin> set n \<Longrightarrow> \<not> endsWith n ''/''"
  by (cases n rule: rev_cases) (auto simp: endsWith_slash)

lemma plainNamesI:
  "\<forall>n\<in>set (dirs d) \<union> set (files d). CHR ''/'' \<notin> set n \<Longrightarrow> plainNames d"
  by (auto simp: plainNames_def no_separator_not_trailing)

lemma plainNames_empty: "plainNames emptyEntry"
  by (simp add: plainNames_def emptyEntry_def)

text \<open>The local-handle adapter lists the names of the entries of the directory it walked to.\<close>

lemma find_child_member: "find_child subfolder kids = Some h \<Longrightarrow> h \<in> set kids"
  by (induction kids) (auto split: if_splits)

lemma walk_plainHandle:
  "plainHandle h \<Longrightarrow> walk h parts = Inr h' \<Longrightarrow> plainHandle h'"
proof (induction h parts rule: walk.induct)
  case (1 currentDir)
  then show ?case by simp
next
  case (2 n subfolder rest)
  then show ?case by simp
next
  case (3 n kids subfolder rest)
  then show ?case
    by (auto split: option.splits dest: find_child_member)
qed

lemma list_children_names:
  "set (dirs (list_children kids c)) \<union> set (files (list_children kids c))
     = set (dirs c) \<union> set (files c) \<union> handle_name ` set kids"
  by (induction kids arbitrary: c) (auto simp: Let_def)

lemma getDirectoryFromHandle_plain:
  assumes "fsHandle fs = Some root" and "plainHandle root"
    and "getDirectoryFromHandle e fs path = Inr d"
  shows "plainNames d"
proof (cases "getChromePermission e fs (fsHandle fs)")
  case False
  with assms show ?thesis by (auto simp: getDirectoryFromHandle_def Let_def plainNames_empty)
next
  case True
  let ?parts = "eatDots (nonblank (split path ''/''))"
  from assms True obtain n kids where w: "walk root ?parts = Inr (DirHandle n kids)"
    and d: "d = list_children kids emptyEntry"
    by (auto simp: getDirectoryFromHandle_def Let_def split: sum.splits handle.splits)
  from walk_plainHandle [OF assms(2) w] have "\<forall>k\<in>set kids. CHR ''/'' \<notin> set (handle_name k)"
    by simp
  then show ?thesis
    unfolding d by (intro plainNamesI) (auto simp: list_children_names emptyEntry_def)
qed

text \<open>The GitHub adapter lists the names of the \<open>file\<close> and \<open>dir\<close> entries of the answer.\<close>

lemma add_entry_names:
  assumes "entry_type entry = ''file'' \<or> entry_type entry = ''dir''
             \<longrightarrow> CHR ''/'' \<notin> set (entry_name entry)"
    and "\<forall>n\<in>set (dirs listing) \<union> set (files listing). CHR ''/'' \<notin> set n"
  shows "\<forall>n\<in>set (dirs (add_entry listing entry)) \<union> set (files (add_entry listing entry)).
           CHR ''/'' \<notin> set n"
proof -
  define isFile where "isFile = (entry_type entry = ''file'')"
  define isDir where "isDir = (entry_type entry = ''dir'')"
  have a: "add_entry listing entry =
             (let l = (if isFile then listing\<lparr>files := files listing @ [entry_name entry]\<rparr> else listing)
              in if isDir then l\<lparr>dirs := dirs l @ [entry_name entry]\<rparr> else l)"
    unfolding isFile_def isDir_def add_entry_def ..
  from assms(1) have "isFile \<or> isDir \<longrightarrow> CHR ''/'' \<notin> set (entry_name entry)"
    unfolding isFile_def isDir_def .
  with assms(2) show ?thesis
    unfolding a by (cases isFile; cases isDir) (auto simp: Let_def)
qed

lemma foldl_add_entry_names:
  assumes "\<forall>entry\<in>set json. entry_type entry = ''file'' \<or> entry_type entry = ''dir''
             \<longrightarrow> CHR ''/'' \<notin> set (entry_name entry)"
    and "\<forall>n\<in>set (dirs listing) \<union> set (files listing). CHR ''/'' \<notin> set n"
  shows "\<forall>n\<in>set (dirs (foldl add_entry listing json)) \<union> set (files (foldl add_entry listing json)).
           CHR ''/'' \<notin> set n"
  using assms
proof (induction json arbitrary: listing)
  case Nil
  then show ?case by simp
next
  case (Cons entry json)
  from Cons.prems(1) have "entry_type entry = ''file'' \<or> entry_type entry = ''dir''
             \<longrightarrow> CHR ''/'' \<notin> set (entry_name entry)"
    by (simp only: list.set ball_simps) blast
  from add_entry_names [OF this Cons.prems(2)] Cons.prems(1) Cons.IH [of "add_entry listing entry"]
  show ?case by (simp only: foldl_Cons list.set ball_simps) blast
qed

lemma getDirectoryFromGitHub_plain:
  assumes "\<forall>url json. fetch_listing e url = Inr (Some json) \<longrightarrow>
               (\<forall>entry\<in>set json. entry_type entry = ''file'' \<or> entry_type entry = ''dir''
                  \<longrightarrow> CHR ''/'' \<notin> set (entry_name entry))"
    and "getDirectoryFromGitHub e path w = (Inr d, w')"
  shows "plainNames d"
proof (cases "length (github_bits path) < 2")
  case True
  with assms(2) show ?thesis by (auto simp: getDirectoryFromGitHub_def Let_def plainNames_empty)
next
  case False
  with assms(2) obtain url json where "fetch_listing e url = Inr (Some json)"
    and d: "d = foldl add_entry emptyEntry json"
    by (auto simp: getDirectoryFromGitHub_def Let_def split: sum.splits option.splits)
  with assms(1) have "\<forall>entry\<in>set json. entry_type entry = ''file'' \<or> entry_type entry = ''dir''
                  \<longrightarrow> CHR ''/'' \<notin> set (entry_name entry)"
    by blast
  from foldl_add_entry_names [OF this, of emptyEntry] show ?thesis
    unfolding d by (intro plainNamesI) (simp add: emptyEntry_def)
qed

text \<open>The authenticated proxy lists the link targets of the page it was served.\<close>

lemma getDirectoryFromAWS_plain:
  assumes "\<forall>url r. fetch e url = Inr r \<longrightarrow> ok r \<longrightarrow>
               (\<forall>link\<in>set (dom_links e (body r)). \<forall>h. fst link = Some h
                  \<longrightarrow> CHR ''/'' \<notin> set (butlast h))"
    and "getDirectoryFromAWS e fs path w = (Inr d, w')"
  shows "plainNames d"
proof -
  from assms(2) obtain url r where f: "fetch e url = Inr r" "ok r"
    and d: "dirs d = fst (parseHtmlDirectoryListing e (body r))"
           "files d = snd (parseHtmlDirectoryListing e (body r))"
    by (auto simp: getDirectoryFromAWS_def Let_def split: sum.splits option.splits if_splits)
  from assms(1) f have "\<forall>link\<in>set (dom_links e (body r)). \<forall>h. fst link = Some h
                  \<longrightarrow> CHR ''/'' \<notin> set (butlast h)"
    by blast
  from foldl_parse_link_names [OF this, of "([], [])"] show ?thesis
    by (intro plainNamesI) (simp add: d parseHtmlDirectoryListing_def)
qed

text \<open>The generic adapter lists the names the chosen dialect reads from the page.\<close>

lemma buildListFromHtml_plain:
  assumes "\<forall>name\<in>set (namesRead data). CHR ''/'' \<notin> set (butlast name)"
  shows "plainNames (buildListFromHtml data)"
proof -
  have line: "\<forall>name\<in>set (List.map_filter f (split data nl)). CHR ''/'' \<notin> set (butlast name)
     \<Longrightarrow> plainNames (mkEntry (foldl classify ([], []) (List.map_filter f (split data nl))))" for f
    using line_parser_names [of "split data nl" f]
    by (intro plainNamesI) (simp only: map_filter_names_iff)
  have npx: "plainNames (buildListFromNpxServe data)"
    by (intro plainNamesI)
       (auto simp: buildListFromNpxServe_def mkEntry_def Let_def last_segment_no_separator)
  from assms line [of sws_name] line [of svn_name] line [of apache_name] line [of nginx_name] npx
  show ?thesis
    unfolding buildListFromHtml_def namesRead_def buildListFromSimpleWebServer_def
      buildListFromSVN_def buildListFromApache24_def buildListFromNGINX_def
    by (simp add: plainNames_empty split: if_splits)
qed

lemma fetch_ok_response:
  "fetch_ok e url w = (Inr r, w') \<Longrightarrow> fetch e url = Inr r \<and> ok r"
  by (auto simp: fetch_ok_def split: sum.splits if_splits)

lemma getFileFetchResponse_response:
  "getFileFetchResponse e fs path w = (Inr r, w') \<Longrightarrow> \<exists>url. fetch e url = Inr r \<and> ok r"
  by (auto simp: getFileFetchResponse_def Let_def split: sum.splits if_splits
           dest: fetch_ok_response)

lemma getDirectoryFromURL_plain:
  assumes "\<forall>url r. fetch e url = Inr r \<longrightarrow> ok r \<longrightarrow>
               (\<forall>name\<in>set (namesRead (body r)). CHR ''/'' \<notin> set (butlast name))"
    and "getDirectoryFromURL e fs path w = (Inr d, w')"
  shows "plainNames d"
proof -
  obtain x w1 where g0: "getFileFetchResponse e fs path w = (x, w1)"
    by (cases "getFileFetchResponse e fs path w")
  with assms(2) obtain r where x: "x = Inr r" and d: "d = buildListFromHtml (body r)"
    by (cases x) (simp_all add: getDirectoryFromURL_def)
  from g0 x have g: "getFileFetchResponse e fs path w = (Inr r, w1)" by simp
  from getFileFetchResponse_response [OF g] assms(1)
  have "\<forall>name\<in>set (namesRead (body r)). CHR ''/'' \<notin> set (butlast name)"
    by blast
  then show ?thesis unfolding d by (rule buildListFromHtml_plain)
qed

lemma adapter_plain:
  assumes "suppliesPlainNames e fs" and "adapter e fs path w = (Inr d, w')"
  shows "plainNames d"
proof (cases "fsHandle fs")
  case (Some root)
  with assms show ?thesis
    by (auto simp: suppliesPlainNames_def adapter_def intro: getDirectoryFromHandle_plain)
next
  case None
  show ?thesis
  proof (cases "isGithub fs")
    case True
    with None assms show ?thesis
      using getDirectoryFromGitHub_plain [of e path w d w']
      by (simp add: suppliesPlainNames_def adapter_def)
  next
    case False
    show ?thesis
    proof (cases "needsAuth fs")
      case True
      with None \<open>\<not> isGithub fs\<close> assms show ?thesis
        using getDirectoryFromAWS_plain [of e fs path w d w']
        by (simp add: suppliesPlainNames_def adapter_def)
    next
      case False
      with None \<open>\<not> isGithub fs\<close> assms show ?thesis
        using getDirectoryFromURL_plain [of e fs path w d w']
        by (simp add: suppliesPlainNames_def adapter_def)
    qed
  qed
qed

lemma sorted_plain:
  assumes "\<forall>xs. set (nsort xs) \<subseteq> set xs" and "plainNames d"
  shows "plainNames (d\<lparr>dirs := nsort (dirs d), files := nsort (files d)\<rparr>)"
  using assms unfolding plainNames_def by (simp add: subset_iff) blast

lemma cachePlain_fresh: "cachePlain (fst fresh)"
  by (simp add: cachePlain_def fresh_def)

lemma nsort_ref_names: "\<forall>xs. set (nsort_ref xs) \<subseteq> set xs"
  by (simp add: nsort_ref_def)

text \<open>
  One call: it leaves a cache of plain listings as one, and what it returns is plain.
\<close>

lemma getDirectory_plain_step:
  assumes "suppliesPlainNames e fs"
    and "\<forall>xs. set (nsort xs) \<subseteq> set xs"
    and "cachePlain (fst st)"
  shows "cachePlain (fst (snd (getDirectory e nsort fs scaryPath st)))
       \<and> (\<forall>d. fst (getDirectory e nsort fs scaryPath st) = Inr d \<longrightarrow> plainNames d)"
proof (cases "fst st (urlId fs) (lookupKey scaryPath)")
  case (Some cachedEntry)
  then have "getDirectory e nsort fs scaryPath st = (Inr cachedEntry, st)"
    by (simp add: getDirectory_def getDirectoryWith_def)
  with Some assms(3) show ?thesis by (auto simp: cachePlain_def)
next
  case None
  obtain x w' where a: "adapter e fs (storeKey scaryPath) (snd st) = (x, w')"
    by (cases "adapter e fs (storeKey scaryPath) (snd st)")
  show ?thesis
  proof (cases x)
    case (Inl err)
    with None a have "getDirectory e nsort fs scaryPath st = (Inl (JSError (toStr err)), fst st, w')"
      by (simp add: getDirectory_def getDirectoryWith_def)
    with assms(3) show ?thesis by simp
  next
    case (Inr dirEntry)
    let ?d = "dirEntry\<lparr>dirs := nsort (dirs dirEntry), files := nsort (files dirEntry)\<rparr>"
    from None a Inr have g: "getDirectory e nsort fs scaryPath st =
        (Inr ?d, (fst st)(urlId fs := (fst st (urlId fs))(storeKey scaryPath \<mapsto> ?d)), w')"
      by (simp add: getDirectory_def getDirectoryWith_def Let_def)
    from a Inr have "adapter e fs (storeKey scaryPath) (snd st) = (Inr dirEntry, w')" by simp
    from sorted_plain [OF assms(2) adapter_plain [OF assms(1) this]] have p: "plainNames ?d" .
    with assms(3) have "cachePlain ((fst st)(urlId fs := (fst st (urlId fs))(storeKey scaryPath \<mapsto> ?d)))"
      unfolding cachePlain_def by (auto split: if_splits)
    with p show ?thesis unfolding g by simp
  qed
qed

text \<open>
  A session from the empty cache, whatever it lists and whenever it clears a
  partition, returns plain listings only: the proviso on the cache below is an
  invariant of the module, whose cache nothing but the constructor, \<open>clearCache\<close> and
  \<open>getDirectory\<close> writes.
\<close>

lemma clearCache_plain: "cachePlain c \<Longrightarrow> cachePlain (clearCache fs c)"
  by (auto simp: cachePlain_def clearCache_def split: if_splits)

lemma session_names:
  assumes "\<forall>fs p. Listing fs p \<in> set requests \<longrightarrow> suppliesPlainNames e fs"
    and "\<forall>xs. set (nsort xs) \<subseteq> set xs"
    and "cachePlain (fst st)"
  shows "\<forall>d. Inr d \<in> set (session e nsort requests st) \<longrightarrow> plainNames d"
  using assms(1,3)
proof (induction requests arbitrary: st)
  case Nil
  show ?case by simp
next
  case (Cons r requests)
  show ?case
  proof (cases r)
    case (Listing fs p)
    with Cons.prems(1) have s: "suppliesPlainNames e fs" by simp
    note step = getDirectory_plain_step [OF s assms(2) Cons.prems(2), of p]
    from Cons.prems(1) have "\<forall>fs p. Listing fs p \<in> set requests \<longrightarrow> suppliesPlainNames e fs"
      by simp
    from Cons.IH [OF this, of "snd (getDirectory e nsort fs p st)"] step Listing
    show ?thesis by auto
  next
    case (ClearCache fs)
    from Cons.prems(1) have "\<forall>fs p. Listing fs p \<in> set requests \<longrightarrow> suppliesPlainNames e fs"
      by simp
    from Cons.IH [OF this, of "(clearCache fs (fst st), snd st)"] clearCache_plain [OF Cons.prems(2)]
      ClearCache
    show ?thesis by simp
  qed
qed

lemma session_from_empty_cache:
  assumes "\<forall>fs p. Listing fs p \<in> set requests \<longrightarrow> suppliesPlainNames e fs"
    and "\<forall>xs. set (nsort xs) \<subseteq> set xs"
  shows "\<forall>d. Inr d \<in> set (session e nsort requests ((\<lambda>rootId. Map.empty), w)) \<longrightarrow> plainNames d"
  using session_names [OF assms, of "((\<lambda>rootId. Map.empty), w)"] by (simp add: cachePlain_def)

text \<open>
  C8, amended: every DirectoryEntry returned by getDirectory, for every backend and
  every parsed HTML dialect, has no directory name with a trailing separator and no
  file or directory name with an embedded separator, provided that the names the
  backend of the instance is given hold no separator (entries below the folder handle,
  \<open>file\<close> and \<open>dir\<close> entries of a GitHub answer) or none but as their last character
  (link targets of a page served to the authenticated proxy, names the chosen dialect
  reads from a page served to the generic adapter). The sort, a library function, is
  taken to return only names it was given. The cache is taken to hold plain listings
  only: the empty cache does, and by the last conjunct every such call leaves it so.
\<close>

theorem getDirectory_names_without_separator:
  assumes "suppliesPlainNames e fs"
    and "\<forall>xs. set (nsort xs) \<subseteq> set xs"
    and "cachePlain (fst st)"
    and "getDirectory e nsort fs scaryPath st = (Inr d, st')"
  shows "(\<forall>n\<in>set (dirs d). \<not> endsWith n ''/'')
       \<and> (\<forall>n\<in>set (dirs d) \<union> set (files d). CHR ''/'' \<notin> set n)
       \<and> cachePlain (fst st')"
  using getDirectory_plain_step [OF assms(1-3), of scaryPath] assms(4)
  by (simp add: plainNames_def)

theorem getDirectory_names_without_separator_witness:
  "suppliesPlainNames tidy_env web_root \<and> suppliesPlainNames tidy_env local_fs
   \<and> suppliesPlainNames tidy_env github_root \<and> suppliesPlainNames tidy_env proxy_root
   \<and> (\<exists>d st'. getDirectory tidy_env nsort_ref web_root ''/data/run'' fresh = (Inr d, st')
         \<and> dirs d = [''plots''] \<and> files d = [''events.csv'']
         \<and> plainNames d \<and> cachePlain (fst st'))
   \<and> (\<exists>d st'. getDirectory tidy_env nsort_ref local_fs ''/root/project/..'' fresh = (Inr d, st')
         \<and> dirs d = [''project'', ''simwrapper''] \<and> files d = []
         \<and> plainNames d \<and> cachePlain (fst st'))
   \<and> (\<exists>d st'. getDirectory tidy_env nsort_ref github_root ''org/repo'' fresh = (Inr d, st')
         \<and> dirs d = [''data''] \<and> files d = [''README.md'']
         \<and> plainNames d \<and> cachePlain (fst st'))
   \<and> (\<exists>d st'. getDirectory tidy_env nsort_ref proxy_root ''/data/run'' fresh = (Inr d, st')
         \<and> dirs d = [''plots''] \<and> files d = [''events.csv'']
         \<and> plainNames d \<and> cachePlain (fst st'))"
proof -
  have found: "\<exists>d st'. getDirectory tidy_env nsort_ref fs p fresh = (Inr d, st')
                 \<and> dirs d = ds \<and> files d = fl \<and> plainNames d \<and> cachePlain (fst st')"
    if s: "suppliesPlainNames tidy_env fs"
      and l: "listed (fst (getDirectory tidy_env nsort_ref fs p fresh)) = Some (ds, fl)"
    for fs p ds fl
  proof -
    from listed_SomeD [OF l] obtain d where
      r: "fst (getDirectory tidy_env nsort_ref fs p fresh) = Inr d" and n: "dirs d = ds" "files d = fl"
      by blast
    then have run: "getDirectory tidy_env nsort_ref fs p fresh
                      = (Inr d, snd (getDirectory tidy_env nsort_ref fs p fresh))"
      by (metis prod.collapse)
    from getDirectory_names_without_separator [OF s nsort_ref_names cachePlain_fresh run]
    have "plainNames d" and "cachePlain (fst (snd (getDirectory tidy_env nsort_ref fs p fresh)))"
      by (simp_all add: plainNames_def)
    with run n show ?thesis by blast
  qed
  have page: "namesRead (body (page (svn_page [''events.csv'', ''plots/'']))) = [''events.csv'', ''plots/'']"
    by code_simp
  have served: "r = page (svn_page [''events.csv'', ''plots/''])"
    if "fetch tidy_env url = Inr r" and "ok r" for url r
    using that by (auto simp: tidy_env_def tidy_fetch_def not_found_def split: if_splits)
  have web: "suppliesPlainNames tidy_env web_root"
  proof -
    have "fsHandle web_root = None" and "\<not> isGithub web_root" and "\<not> needsAuth web_root"
      by (simp_all add: web_root_def newHTTPFileSystem_def)
    moreover have "\<forall>name\<in>set (namesRead (body r)). CHR ''/'' \<notin> set (butlast name)"
      if "fetch tidy_env url = Inr r" and "ok r" for url r
      unfolding served [OF that] page by simp
    ultimately show ?thesis by (simp add: suppliesPlainNames_def)
  qed
  have "plainHandle local_tree" by code_simp
  then have local: "suppliesPlainNames tidy_env local_fs"
    by (simp add: suppliesPlainNames_def local_fs_def local_config_def newHTTPFileSystem_def)
  have github: "suppliesPlainNames tidy_env github_root"
  proof -
    have "fsHandle github_root = None" and "isGithub github_root"
      by (simp_all add: github_root_def newHTTPFileSystem_def)
    moreover have "\<forall>entry\<in>set json. entry_type entry = ''file'' \<or> entry_type entry = ''dir''
                  \<longrightarrow> CHR ''/'' \<notin> set (entry_name entry)"
      if "fetch_listing tidy_env url = Inr (Some json)" for url json
      using that by (auto simp: tidy_env_def tidy_listing_def split: if_splits)
    ultimately show ?thesis by (simp add: suppliesPlainNames_def)
  qed
  have proxy: "suppliesPlainNames tidy_env proxy_root"
  proof -
    have "fsHandle proxy_root = None" and "\<not> isGithub proxy_root" and "needsAuth proxy_root"
      by (simp_all add: proxy_root_def newHTTPFileSystem_def)
    moreover have "\<forall>link\<in>set (dom_links tidy_env markup). \<forall>h. fst link = Some h
                     \<longrightarrow> CHR ''/'' \<notin> set (butlast h)" for markup
      by (simp add: tidy_env_def)
    ultimately show ?thesis by (simp add: suppliesPlainNames_def)
  qed
  have "listed (fst (getDirectory tidy_env nsort_ref web_root ''/data/run'' fresh))
          = Some ([''plots''], [''events.csv''])"
    and "listed (fst (getDirectory tidy_env nsort_ref local_fs ''/root/project/..'' fresh))
          = Some ([''project'', ''simwrapper''], [])"
    and "listed (fst (getDirectory tidy_env nsort_ref github_root ''org/repo'' fresh))
          = Some ([''data''], [''README.md''])"
    and "listed (fst (getDirectory tidy_env nsort_ref proxy_root ''/data/run'' fresh))
          = Some ([''plots''], [''events.csv''])"
    by code_simp+
  then show ?thesis
    using found [OF web] found [OF local] found [OF github] found [OF proxy] web local github proxy
    by blast
qed

end
